theory Spec2Isabelle
  imports Complex_Main "HOL-Library.Multiset"
begin

section \<open>Data model\<close>

text \<open>
  Documents of the three collections, as the schemas declare them. An ObjectId is
  modelled as a natural number, a JavaScript \<^verbatim>\<open>number\<close> as an exact rational (IEEE
  rounding is outside the model). A collection is the list of its documents in
  natural order.
\<close>

type_synonym objectId = nat
type_synonym number = rat

datatype UserRole = CUSTOMER | VENDOR | ADMIN

datatype OrderStatus = PENDING | PROCESSING | SHIPPED | DELIVERED | CANCELLED

record User =
  u_id :: objectId
  role :: UserRole

record Product =
  p_id :: objectId
  p_name :: string
  p_price :: number
  stock :: number
  category :: string
  p_vendorId :: objectId

record OrderItemDto =
  productId :: objectId
  quantity :: number

text \<open>
  Modelled from the spec: the class \<^verbatim>\<open>CreateOrderDto\<close> (\<^verbatim>\<open>dto/create-order.dto.ts\<close>) is
  not among the sources. The service reads only its \<^verbatim>\<open>items\<close>, the cart lines
  \<open>(productId, quantity)\<close>; whatever validation decorators the class carries run in
  the transport layer, before the service is called.
\<close>

record CreateOrderDto =
  items :: "OrderItemDto list"

record OrderItem =
  oi_productId :: objectId
  oi_name :: string
  oi_price :: number
  oi_quantity :: number
  oi_vendorId :: objectId

record Order =
  o_id :: objectId
  customerId :: objectId
  o_items :: "OrderItem list"
  totalAmount :: number
  o_status :: OrderStatus
  subOrders :: "objectId list"

record SubOrder =
  so_id :: objectId
  parentOrderId :: objectId
  so_vendorId :: objectId
  so_items :: "OrderItem list"
  amount :: number
  so_status :: OrderStatus

record UpdateProductDto =
  upd_name :: "string option"
  upd_price :: "number option"
  upd_stock :: "number option"
  upd_category :: "string option"

record db =
  productModel :: "Product list"
  orderModel :: "Order list"
  subOrderModel :: "SubOrder list"

text \<open>
  Exceptions carry the message template and its arguments instead of the formatted
  string.
\<close>

datatype message =
    OnlyCustomersCanCreateOrders
  | ProductsNotFoundOrOutOfStock "objectId list"
  | ProductNotFoundOrOutOfStock objectId
  | NotEnoughStockAvailableRequested string number number
  | ProductNotFoundOrInsufficientStock objectId
  | DuplicateKey objectId
  | FailedToCreateOrder message
  | ProductNotFound objectId
  | OnlyUpdateOwnProducts
  | NoPermissionToUpdateProducts
  | NotEnoughStockFor string
  | OrderNotFound objectId
  | SubOrderNotFound objectId
  | ParentOrderNotFoundForSubOrder objectId
  | VendorsOnlyUpdateOwnSubOrders
  | OnlyUpdateOwnSubOrders
  | FailedToUpdateOrderStatus message

datatype exception =
    BadRequestException message
  | ForbiddenException message
  | NotFoundException message
  | InternalServerErrorException message
  | MongoServerError message

section \<open>Collection primitives\<close>

text \<open>\<^verbatim>\<open>Model.findOne(q)\<close>: the first document matching the query.\<close>

fun findOne :: "('a \<Rightarrow> bool) \<Rightarrow> 'a list \<Rightarrow> 'a option" where
  "findOne q [] = None"
| "findOne q (d # ds) = (if q d then Some d else findOne q ds)"

text \<open>
  \<^verbatim>\<open>Model.findOneAndUpdate(q, u, {new: true})\<close>: the first document matching the
  query is replaced by its update, and the updated document is returned.
\<close>

fun findOneAndUpdate :: "('a \<Rightarrow> bool) \<Rightarrow> ('a \<Rightarrow> 'a) \<Rightarrow> 'a list \<Rightarrow> 'a option \<times> 'a list" where
  "findOneAndUpdate q u [] = (None, [])"
| "findOneAndUpdate q u (d # ds) =
     (if q d then (Some (u d), u d # ds)
      else (case findOneAndUpdate q u ds of (r, ds') \<Rightarrow> (r, d # ds')))"

text \<open>\<^verbatim>\<open>Model.updateMany(q, u)\<close>: every matching document is updated.\<close>

definition updateMany :: "('a \<Rightarrow> bool) \<Rightarrow> ('a \<Rightarrow> 'a) \<Rightarrow> 'a list \<Rightarrow> 'a list" where
  "updateMany q u ds = map (\<lambda>d. if q d then u d else d) ds"

section \<open>ProductsService\<close>

text \<open>
  \<^verbatim>\<open>decrementStock(productId, quantity, session)\<close>: one conditional
  \<^verbatim>\<open>findOneAndUpdate({_id, stock: {$gte: quantity}}, {$inc: {stock: -quantity}})\<close> on
  the products collection the session sees.
\<close>

definition decrementStock ::
  "objectId \<Rightarrow> number \<Rightarrow> Product list \<Rightarrow> (exception + Product) \<times> Product list" where
  "decrementStock pid qty ps =
     (case findOneAndUpdate (\<lambda>p. p_id p = pid \<and> qty \<le> stock p)
             (\<lambda>p. p\<lparr>stock := stock p + (- qty)\<rparr>) ps of
        (None, _) \<Rightarrow> (Inl (BadRequestException (ProductNotFoundOrInsufficientStock pid)), ps)
      | (Some p, ps') \<Rightarrow> (Inr p, ps'))"

text \<open>
  \<^verbatim>\<open>getProductsInStock(ids)\<close>: \<^verbatim>\<open>find({_id: {$in: ids}, stock: {$gt: 0}})\<close>.
\<close>

definition getProductsInStock :: "objectId list \<Rightarrow> Product list \<Rightarrow> Product list" where
  "getProductsInStock ids ps = filter (\<lambda>p. p_id p \<in> set ids \<and> 0 < stock p) ps"

text \<open>
  \<^verbatim>\<open>update(id, updateProductDto, user)\<close>: the owner vendor or an admin overwrites
  the fields the DTO carries, \<^verbatim>\<open>stock\<close> among them.
\<close>

definition applyUpdateProductDto :: "UpdateProductDto \<Rightarrow> Product \<Rightarrow> Product" where
  "applyUpdateProductDto dto p =
     p\<lparr>p_name := (case upd_name dto of None \<Rightarrow> p_name p | Some v \<Rightarrow> v),
       p_price := (case upd_price dto of None \<Rightarrow> p_price p | Some v \<Rightarrow> v),
       stock := (case upd_stock dto of None \<Rightarrow> stock p | Some v \<Rightarrow> v),
       category := (case upd_category dto of None \<Rightarrow> category p | Some v \<Rightarrow> v)\<rparr>"

definition update ::
  "objectId \<Rightarrow> UpdateProductDto \<Rightarrow> User \<Rightarrow> Product list \<Rightarrow> (exception + Product) \<times> Product list" where
  "update pid dto user ps =
     (case findOne (\<lambda>p. p_id p = pid) ps of
        None \<Rightarrow> (Inl (NotFoundException (ProductNotFound pid)), ps)
      | Some product \<Rightarrow>
          if role user = VENDOR \<and> p_vendorId product \<noteq> u_id user
          then (Inl (ForbiddenException OnlyUpdateOwnProducts), ps)
          else if role user \<noteq> ADMIN \<and> role user \<noteq> VENDOR
          then (Inl (ForbiddenException NoPermissionToUpdateProducts), ps)
          else (case findOneAndUpdate (\<lambda>p. p_id p = pid) (applyUpdateProductDto dto) ps of
                  (None, _) \<Rightarrow> (Inl (NotFoundException (ProductNotFound pid)), ps)
                | (Some updatedProduct, ps') \<Rightarrow> (Inr updatedProduct, ps')))"

text \<open>
  \<^verbatim>\<open>updateStock(productId, quantity)\<close>: read, check, subtract, save: the saved
  document carries the stock computed from the value read.
\<close>

definition updateStock ::
  "objectId \<Rightarrow> number \<Rightarrow> Product list \<Rightarrow> (exception + Product) \<times> Product list" where
  "updateStock pid qty ps =
     (case findOne (\<lambda>p. p_id p = pid) ps of
        None \<Rightarrow> (Inl (NotFoundException (ProductNotFound pid)), ps)
      | Some product \<Rightarrow>
          if stock product < qty
          then (Inl (ForbiddenException (NotEnoughStockFor (p_name product))), ps)
          else (Inr (product\<lparr>stock := stock product - qty\<rparr>),
                snd (findOneAndUpdate (\<lambda>p. p_id p = pid)
                       (\<lambda>p. p\<lparr>stock := stock product - qty\<rparr>) ps)))"

section \<open>Sessions and transactions\<close>

text \<open>
  A connection holds the committed database and the view of the one open
  transaction (the snapshot taken at its start plus its own writes). An operation
  given the session reads and writes the view; an operation without it reads and
  writes the committed database.
\<close>

record connection =
  database :: db
  transaction :: db

definition startTransaction :: "db \<Rightarrow> connection" where
  "startTransaction d = \<lparr>database = d, transaction = d\<rparr>"

definition commitTransaction :: "connection \<Rightarrow> db" where
  "commitTransaction c = transaction c"

definition abortTransaction :: "connection \<Rightarrow> db" where
  "abortTransaction c = database c"

text \<open>
  \<^verbatim>\<open>new Model(doc).save()\<close> of a new document: an insert, which the unique index on
  \<^verbatim>\<open>_id\<close> rejects when the id is taken.
\<close>

definition insertOne :: "('a \<Rightarrow> objectId) \<Rightarrow> 'a \<Rightarrow> 'a list \<Rightarrow> exception + 'a list" where
  "insertOne k doc ds =
     (if k doc \<in> set (map k ds) then Inl (MongoServerError (DuplicateKey (k doc)))
      else Inr (ds @ [doc]))"

text \<open>
  \<^verbatim>\<open>doc.save()\<close> of a loaded document: \<^verbatim>\<open>updateOne({_id}, {$set: modified paths})\<close>.
\<close>

definition updateOne :: "('a \<Rightarrow> bool) \<Rightarrow> ('a \<Rightarrow> 'a) \<Rightarrow> 'a list \<Rightarrow> 'a list" where
  "updateOne q u ds = snd (findOneAndUpdate q u ds)"

text \<open>
  \<^verbatim>\<open>populate('subOrders')\<close>: the referenced sub-orders that exist, in the order of
  the references.
\<close>

definition populate :: "objectId list \<Rightarrow> SubOrder list \<Rightarrow> SubOrder list" where
  "populate ids subs = List.map_filter (\<lambda>i. findOne (\<lambda>so. so_id so = i) subs) ids"

section \<open>OrdersService.create\<close>

record StockUpdate =
  su_productId :: objectId
  su_quantity :: number

text \<open>
  \<^verbatim>\<open>products.forEach(product => productMap.set(product._id.toString(), product))\<close>
\<close>

definition productMapOf :: "Product list \<Rightarrow> (objectId \<rightharpoonup> Product)" where
  "productMapOf ps = foldl (\<lambda>m p. m(p_id p \<mapsto> p)) Map.empty ps"

text \<open>The validation loop: the first cart line that fails throws.\<close>

fun validateStock :: "(objectId \<rightharpoonup> Product) \<Rightarrow> OrderItemDto list \<Rightarrow> exception option" where
  "validateStock m [] = None"
| "validateStock m (item # rest) =
     (case m (productId item) of
        None \<Rightarrow> Some (BadRequestException (ProductNotFoundOrOutOfStock (productId item)))
      | Some product \<Rightarrow>
          if stock product < quantity item
          then Some (BadRequestException
                 (NotEnoughStockAvailableRequested (p_name product) (stock product) (quantity item)))
          else validateStock m rest)"

text \<open>
  \<^verbatim>\<open>vendorItems\<close> is a JavaScript \<^verbatim>\<open>Map\<close>, which iterates in insertion order: an
  association list. A new vendor is entered at the end with an empty array, then
  the item is pushed onto the vendor's array.
\<close>

fun pushVendorItem ::
  "objectId \<Rightarrow> OrderItem \<Rightarrow> (objectId \<times> OrderItem list) list \<Rightarrow> (objectId \<times> OrderItem list) list" where
  "pushVendorItem v it [] = [(v, [it])]"
| "pushVendorItem v it ((w, its) # rest) =
     (if w = v then (w, its @ [it]) # rest else (w, its) # pushVendorItem v it rest)"

record grouping =
  vendorItems :: "(objectId \<times> OrderItem list) list"
  g_totalAmount :: number
  orderItems :: "OrderItem list"
  stockUpdates :: "StockUpdate list"

definition processItem :: "(objectId \<rightharpoonup> Product) \<Rightarrow> grouping \<Rightarrow> OrderItemDto \<Rightarrow> grouping" where
  "processItem m g item =
     (case m (productId item) of
        None \<Rightarrow> g
      | Some product \<Rightarrow>
          (let orderItem = \<lparr>oi_productId = productId item, oi_name = p_name product,
                 oi_price = p_price product, oi_quantity = quantity item,
                 oi_vendorId = p_vendorId product\<rparr>
           in \<lparr>vendorItems = pushVendorItem (p_vendorId product) orderItem (vendorItems g),
               g_totalAmount = g_totalAmount g + p_price product * quantity item,
               orderItems = orderItems g @ [orderItem],
               stockUpdates = stockUpdates g @
                 [\<lparr>su_productId = productId item, su_quantity = quantity item\<rparr>]\<rparr>))"

definition groupItems :: "(objectId \<rightharpoonup> Product) \<Rightarrow> OrderItemDto list \<Rightarrow> grouping" where
  "groupItems m its =
     foldl (processItem m)
       \<lparr>vendorItems = [], g_totalAmount = 0, orderItems = [], stockUpdates = []\<rparr> its"

text \<open>
  The sub-order loop, in the iteration order of \<^verbatim>\<open>vendorItems\<close>. The ObjectId of
  the \<open>k\<close>-th document constructed by the call is \<open>gen k\<close>.
\<close>

fun createSubOrders ::
  "(nat \<Rightarrow> objectId) \<Rightarrow> objectId \<Rightarrow> (objectId \<times> OrderItem list) list \<Rightarrow> nat \<Rightarrow> connection
     \<Rightarrow> (exception + objectId list) \<times> connection" where
  "createSubOrders gen parent [] k c = (Inr [], c)"
| "createSubOrders gen parent ((vendorId, its) # rest) k c =
     (let subOrderAmount = foldl (\<lambda>sum item. sum + oi_price item * oi_quantity item) 0 its;
          subOrder = \<lparr>so_id = gen k, parentOrderId = parent, so_vendorId = vendorId,
            so_items = its, amount = subOrderAmount, so_status = PENDING\<rparr>
      in case insertOne so_id subOrder (subOrderModel (transaction c)) of
           Inl e \<Rightarrow> (Inl e, c)
         | Inr subs \<Rightarrow>
             (case createSubOrders gen parent rest (Suc k)
                     (c\<lparr>transaction := (transaction c)\<lparr>subOrderModel := subs\<rparr>\<rparr>) of
                (Inl e, c1) \<Rightarrow> (Inl e, c1)
              | (Inr ids, c1) \<Rightarrow> (Inr (gen k # ids), c1)))"

text \<open>The reservation loop: \<^verbatim>\<open>decrementStock\<close> for every queued update, in the session.\<close>

fun applyStockUpdates :: "StockUpdate list \<Rightarrow> connection \<Rightarrow> exception option \<times> connection" where
  "applyStockUpdates [] c = (None, c)"
| "applyStockUpdates (upd # rest) c =
     (case decrementStock (su_productId upd) (su_quantity upd) (productModel (transaction c)) of
        (Inl e, _) \<Rightarrow> (Some e, c)
      | (Inr _, ps) \<Rightarrow>
          applyStockUpdates rest (c\<lparr>transaction := (transaction c)\<lparr>productModel := ps\<rparr>\<rparr>))"

text \<open>
  The \<^verbatim>\<open>try\<close> block of \<^verbatim>\<open>create\<close>. The product snapshot is read without the
  session; every write is made with it.
\<close>

definition tryCreate ::
  "(nat \<Rightarrow> objectId) \<Rightarrow> CreateOrderDto \<Rightarrow> User \<Rightarrow> connection \<Rightarrow> (exception + Order) \<times> connection" where
  "tryCreate gen dto user c =
     (let productIds = map productId (items dto);
          products = getProductsInStock productIds (productModel (database c));
          productMap = productMapOf products;
          missingProducts = filter (\<lambda>i. productMap i = None) productIds
      in if missingProducts \<noteq> []
         then (Inl (BadRequestException (ProductsNotFoundOrOutOfStock missingProducts)), c)
         else case validateStock productMap (items dto) of
           Some e \<Rightarrow> (Inl e, c)
         | None \<Rightarrow>
           (let g = groupItems productMap (items dto);
                order = \<lparr>o_id = gen 0, customerId = u_id user, o_items = orderItems g,
                  totalAmount = g_totalAmount g, o_status = PENDING, subOrders = []\<rparr>
            in case insertOne o_id order (orderModel (transaction c)) of
                 Inl e \<Rightarrow> (Inl e, c)
               | Inr os \<Rightarrow>
                 (case createSubOrders gen (o_id order) (vendorItems g) 1
                         (c\<lparr>transaction := (transaction c)\<lparr>orderModel := os\<rparr>\<rparr>) of
                    (Inl e, c1) \<Rightarrow> (Inl e, c1)
                  | (Inr subOrderIds, c1) \<Rightarrow>
                    (let c2 = c1\<lparr>transaction := (transaction c1)
                           \<lparr>orderModel := updateOne (\<lambda>x. o_id x = o_id order)
                              (\<lambda>x. x\<lparr>subOrders := subOrderIds\<rparr>) (orderModel (transaction c1))\<rparr>\<rparr>
                     in case applyStockUpdates (stockUpdates g) c2 of
                          (Some e, c3) \<Rightarrow> (Inl e, c3)
                        | (None, c3) \<Rightarrow> (Inr (order\<lparr>subOrders := subOrderIds\<rparr>), c3)))))"

fun exceptionMessage :: "exception \<Rightarrow> message" where
  "exceptionMessage (BadRequestException m) = m"
| "exceptionMessage (ForbiddenException m) = m"
| "exceptionMessage (NotFoundException m) = m"
| "exceptionMessage (InternalServerErrorException m) = m"
| "exceptionMessage (MongoServerError m) = m"

text \<open>The \<^verbatim>\<open>catch\<close> block of \<^verbatim>\<open>create\<close>, after \<^verbatim>\<open>abortTransaction\<close>.\<close>

fun rethrowCreate :: "exception \<Rightarrow> exception" where
  "rethrowCreate (BadRequestException m) = BadRequestException m"
| "rethrowCreate (ForbiddenException m) = ForbiddenException m"
| "rethrowCreate (NotFoundException m) = NotFoundException m"
| "rethrowCreate e = InternalServerErrorException (FailedToCreateOrder (exceptionMessage e))"

definition create ::
  "(nat \<Rightarrow> objectId) \<Rightarrow> CreateOrderDto \<Rightarrow> User \<Rightarrow> db \<Rightarrow> (exception + Order) \<times> db" where
  "create gen dto user d =
     (if role user \<noteq> CUSTOMER
      then (Inl (ForbiddenException OnlyCustomersCanCreateOrders), d)
      else case tryCreate gen dto user (startTransaction d) of
             (Inr order, c) \<Rightarrow> (Inr order, commitTransaction c)
           | (Inl e, c) \<Rightarrow> (Inl (rethrowCreate e), abortTransaction c))"

section \<open>OrdersService.updateOrderStatus\<close>

datatype document = OrderDocument Order | SubOrderDocument SubOrder

text \<open>
  No session is used here: every save is a write to the committed database. The
  order returned for a parent id is the saved order; its populated sub-order
  documents are not part of the returned value.
\<close>

definition updateOrderStatus ::
  "objectId \<Rightarrow> OrderStatus \<Rightarrow> User \<Rightarrow> db \<Rightarrow> (exception + document) \<times> db" where
  "updateOrderStatus i status user d =
     (let isParentOrder = (findOne (\<lambda>x. o_id x = i) (orderModel d) \<noteq> None)
      in if isParentOrder then
        (case findOne (\<lambda>x. o_id x = i) (orderModel d) of
           None \<Rightarrow> (Inl (NotFoundException (OrderNotFound i)), d)
         | Some order \<Rightarrow>
             if role user = VENDOR
             then (Inl (ForbiddenException VendorsOnlyUpdateOwnSubOrders), d)
             else
               (let populated = populate (subOrders order) (subOrderModel d);
                    d1 = d\<lparr>orderModel := updateOne (\<lambda>x. o_id x = i)
                           (\<lambda>x. x\<lparr>o_status := status\<rparr>) (orderModel d)\<rparr>;
                    d2 = (if populated \<noteq> []
                          then d1\<lparr>subOrderModel := updateMany
                                 (\<lambda>so. so_id so \<in> set (map so_id populated))
                                 (\<lambda>so. so\<lparr>so_status := status\<rparr>) (subOrderModel d1)\<rparr>
                          else d1)
                in (Inr (OrderDocument (order\<lparr>o_status := status\<rparr>)), d2)))
      else
        (case findOne (\<lambda>x. so_id x = i) (subOrderModel d) of
           None \<Rightarrow> (Inl (NotFoundException (SubOrderNotFound i)), d)
         | Some subOrder \<Rightarrow>
             if role user = VENDOR \<and> so_vendorId subOrder \<noteq> u_id user
             then (Inl (ForbiddenException OnlyUpdateOwnSubOrders), d)
             else
               (let d1 = d\<lparr>subOrderModel := updateOne (\<lambda>x. so_id x = i)
                           (\<lambda>x. x\<lparr>so_status := status\<rparr>) (subOrderModel d)\<rparr>
                in case findOne (\<lambda>x. o_id x = parentOrderId subOrder) (orderModel d1) of
                     None \<Rightarrow> (Inl (NotFoundException (ParentOrderNotFoundForSubOrder i)), d1)
                   | Some parentOrder \<Rightarrow>
                       (let allSubOrders = filter (\<lambda>so. parentOrderId so = o_id parentOrder)
                              (subOrderModel d1);
                            saved = d1\<lparr>orderModel := updateOne
                              (\<lambda>x. o_id x = o_id parentOrder)
                              (\<lambda>x. x\<lparr>o_status := status\<rparr>) (orderModel d1)\<rparr>
                        in if length allSubOrders = 1
                           then (Inr (SubOrderDocument (subOrder\<lparr>so_status := status\<rparr>)), saved)
                           else if 1 < length allSubOrders
                           then (if list_all (\<lambda>so. so_status so = status) allSubOrders
                                 then (Inr (SubOrderDocument (subOrder\<lparr>so_status := status\<rparr>)), saved)
                                 else (Inr (SubOrderDocument (subOrder\<lparr>so_status := status\<rparr>)), d1))
                           else (Inr (SubOrderDocument (subOrder\<lparr>so_status := status\<rparr>)), d1)))))"

section \<open>Grouping by vendor\<close>

text \<open>
  The vendors of a list of items in the order of their first occurrence, and the
  partition of the items they induce: what the grouping loop is compared with.
\<close>

definition firstOccurrences :: "'a list \<Rightarrow> 'a list" where
  "firstOccurrences xs = rev (remdups (rev xs))"

definition groupByVendor :: "OrderItem list \<Rightarrow> (objectId \<times> OrderItem list) list" where
  "groupByVendor ois =
     map (\<lambda>v. (v, filter (\<lambda>it. oi_vendorId it = v) ois)) (firstOccurrences (map oi_vendorId ois))"

definition lineTotal :: "OrderItem \<Rightarrow> number" where
  "lineTotal it = oi_price it * oi_quantity it"

definition orderItemOf :: "Product \<Rightarrow> OrderItemDto \<Rightarrow> OrderItem" where
  "orderItemOf product item =
     \<lparr>oi_productId = productId item, oi_name = p_name product, oi_price = p_price product,
      oi_quantity = quantity item, oi_vendorId = p_vendorId product\<rparr>"

definition stockUpdateOf :: "OrderItem \<Rightarrow> StockUpdate" where
  "stockUpdateOf it = \<lparr>su_productId = oi_productId it, su_quantity = oi_quantity it\<rparr>"

definition grouped :: "grouping \<Rightarrow> bool" where
  "grouped g \<longleftrightarrow>
     vendorItems g = groupByVendor (orderItems g)
     \<and> g_totalAmount g = sum_list (map lineTotal (orderItems g))
     \<and> stockUpdates g = map stockUpdateOf (orderItems g)"

text \<open>
  The sub-order documents the sub-order loop inserts for a grouping, and the
  products left by a sequence of conditional decrements: what the persistence
  steps of \<^verbatim>\<open>create\<close> are compared with.
\<close>

fun newSubOrders ::
  "(nat \<Rightarrow> objectId) \<Rightarrow> objectId \<Rightarrow> (objectId \<times> OrderItem list) list \<Rightarrow> nat \<Rightarrow> SubOrder list" where
  "newSubOrders gen parent [] k = []"
| "newSubOrders gen parent ((v, its) # rest) k =
     \<lparr>so_id = gen k, parentOrderId = parent, so_vendorId = v, so_items = its,
      amount = sum_list (map lineTotal its), so_status = PENDING\<rparr>
     # newSubOrders gen parent rest (Suc k)"

fun decrementAll :: "StockUpdate list \<Rightarrow> Product list \<Rightarrow> Product list" where
  "decrementAll [] ps = ps"
| "decrementAll (u # us) ps =
     decrementAll us (snd (decrementStock (su_productId u) (su_quantity u) ps))"

text \<open>The product map and the grouping that \<^verbatim>\<open>create\<close> computes for a cart.\<close>

definition snapshot :: "CreateOrderDto \<Rightarrow> db \<Rightarrow> (objectId \<rightharpoonup> Product)" where
  "snapshot dto d = productMapOf (getProductsInStock (map productId (items dto)) (productModel d))"

definition cartGrouping :: "CreateOrderDto \<Rightarrow> db \<Rightarrow> grouping" where
  "cartGrouping dto d = groupItems (snapshot dto d) (items dto)"

section \<open>Sample data\<close>

definition productA :: Product where
  "productA = \<lparr>p_id = 1, p_name = ''A'', p_price = 10, stock = 5, category = ''c'', p_vendorId = 101\<rparr>"

definition productB :: Product where
  "productB = \<lparr>p_id = 2, p_name = ''B'', p_price = 20, stock = 1, category = ''c'', p_vendorId = 102\<rparr>"

definition gen0 :: "nat \<Rightarrow> objectId" where
  "gen0 k = 1000 + k"

definition customer7 :: User where
  "customer7 = \<lparr>u_id = 7, role = CUSTOMER\<rparr>"

definition db0 :: db where
  "db0 = \<lparr>productModel = [productA, productB], orderModel = [], subOrderModel = []\<rparr>"

definition cartTwiceA :: CreateOrderDto where
  "cartTwiceA = \<lparr>items = [\<lparr>productId = 1, quantity = 3\<rparr>, \<lparr>productId = 1, quantity = 3\<rparr>]\<rparr>"

definition order50 :: Order where
  "order50 = \<lparr>o_id = 50, customerId = 7, o_items = [], totalAmount = 0,
     o_status = PROCESSING, subOrders = [51, 52, 53]\<rparr>"

definition sampleSubOrder :: "objectId \<Rightarrow> objectId \<Rightarrow> objectId \<Rightarrow> OrderStatus \<Rightarrow> SubOrder" where
  "sampleSubOrder i p v st =
     \<lparr>so_id = i, parentOrderId = p, so_vendorId = v, so_items = [], amount = 0, so_status = st\<rparr>"

definition order70 :: Order where
  "order70 = \<lparr>o_id = 70, customerId = 7, o_items = [], totalAmount = 0,
     o_status = PENDING, subOrders = [71]\<rparr>"

definition db1 :: db where
  "db1 = \<lparr>productModel = [productA, productB], orderModel = [order50, order70],
     subOrderModel = [sampleSubOrder 51 50 101 SHIPPED, sampleSubOrder 52 50 102 SHIPPED,
       sampleSubOrder 53 50 103 PENDING, sampleSubOrder 60 99 103 PENDING,
       sampleSubOrder 71 70 101 PENDING]\<rparr>"

definition admin1 :: User where
  "admin1 = \<lparr>u_id = 1, role = ADMIN\<rparr>"

definition vendor103 :: User where
  "vendor103 = \<lparr>u_id = 103, role = VENDOR\<rparr>"

definition cartAB :: CreateOrderDto where
  "cartAB = \<lparr>items = [\<lparr>productId = 1, quantity = 2\<rparr>, \<lparr>productId = 2, quantity = 1\<rparr>]\<rparr>"

definition dbBSoldOut :: db where
  "dbBSoldOut = \<lparr>productModel = [productA, productB\<lparr>stock := 0\<rparr>], orderModel = [],
     subOrderModel = []\<rparr>"

definition productC :: Product where
  "productC = \<lparr>p_id = 3, p_name = ''C'', p_price = 7, stock = 4, category = ''c'', p_vendorId = 101\<rparr>"

definition dbABC :: db where
  "dbABC = \<lparr>productModel = [productA, productB, productC], orderModel = [], subOrderModel = []\<rparr>"

definition cartABC :: CreateOrderDto where
  "cartABC = \<lparr>items = [\<lparr>productId = 1, quantity = 2\<rparr>, \<lparr>productId = 2, quantity = 1\<rparr>,
     \<lparr>productId = 3, quantity = 1\<rparr>]\<rparr>"

definition itemA :: OrderItem where
  "itemA = \<lparr>oi_productId = 1, oi_name = ''A'', oi_price = 10, oi_quantity = 2, oi_vendorId = 101\<rparr>"

definition itemB :: OrderItem where
  "itemB = \<lparr>oi_productId = 2, oi_name = ''B'', oi_price = 20, oi_quantity = 1, oi_vendorId = 102\<rparr>"

definition itemC :: OrderItem where
  "itemC = \<lparr>oi_productId = 3, oi_name = ''C'', oi_price = 7, oi_quantity = 1, oi_vendorId = 101\<rparr>"

definition orderABC :: Order where
  "orderABC = \<lparr>o_id = 1000, customerId = 7, o_items = [itemA, itemB, itemC], totalAmount = 47,
     o_status = PENDING, subOrders = [1001, 1002]\<rparr>"

definition subOrderAC :: SubOrder where
  "subOrderAC = \<lparr>so_id = 1001, parentOrderId = 1000, so_vendorId = 101, so_items = [itemA, itemC],
     amount = 27, so_status = PENDING\<rparr>"

definition subOrderB :: SubOrder where
  "subOrderB = \<lparr>so_id = 1002, parentOrderId = 1000, so_vendorId = 102, so_items = [itemB],
     amount = 20, so_status = PENDING\<rparr>"

definition dbABCPlaced :: db where
  "dbABCPlaced = \<lparr>productModel = [productA\<lparr>stock := 3\<rparr>, productB\<lparr>stock := 0\<rparr>,
       productC\<lparr>stock := 3\<rparr>],
     orderModel = [orderABC], subOrderModel = [subOrderAC, subOrderB]\<rparr>"

definition restock7 :: UpdateProductDto where
  "restock7 = \<lparr>upd_name = None, upd_price = None, upd_stock = Some 7, upd_category = None\<rparr>"

definition emptyCart :: CreateOrderDto where
  "emptyCart = \<lparr>items = []\<rparr>"

definition emptyOrder :: Order where
  "emptyOrder = \<lparr>o_id = 1000, customerId = 7, o_items = [], totalAmount = 0, o_status = PENDING,
     subOrders = []\<rparr>"

definition cartAA :: CreateOrderDto where
  "cartAA = \<lparr>items = [\<lparr>productId = 1, quantity = 2\<rparr>, \<lparr>productId = 1, quantity = 1\<rparr>]\<rparr>"

definition dbTaken :: db where
  "dbTaken = \<lparr>productModel = [productA, productB], orderModel = [],
     subOrderModel = [sampleSubOrder 1001 50 101 PENDING]\<rparr>"

section \<open>Facts about the collection primitives\<close>




lemma findOne_SomeD:
  "findOne q ds = Some x \<Longrightarrow> q x \<and> x \<in> set ds"
  by (induction ds) (auto split: if_splits)

lemma findOne_None_iff:
  "findOne q ds = None \<longleftrightarrow> (\<forall>x\<in>set ds. \<not> q x)"
  by (induction ds) auto

lemma findOne_append:
  "findOne q (xs @ ys) = (case findOne q xs of None \<Rightarrow> findOne q ys | Some x \<Rightarrow> Some x)"
  by (induction xs) auto

lemma updateOne_Nil [simp]:
  "updateOne q u [] = []"
  by (simp add: updateOne_def)

lemma updateOne_Cons [simp]:
  "updateOne q u (d # ds) = (if q d then u d # ds else d # updateOne q u ds)"
  by (simp add: updateOne_def split: prod.split)

lemma length_updateOne [simp]:
  "length (updateOne q u ds) = length ds"
  by (induction ds) auto

lemma findOne_updateOne_same:
  assumes "\<And>x. k (u x) = k x"
  shows "findOne (\<lambda>x. k x = i) (updateOne (\<lambda>x. k x = i) u ds) = map_option u (findOne (\<lambda>x. k x = i) ds)"
  by (induction ds) (auto simp: assms)

lemma findOne_updateOne_other:
  assumes "\<And>x. k (u x) = k x" and "j \<noteq> i"
  shows "findOne (\<lambda>x. k x = j) (updateOne (\<lambda>x. k x = i) u ds) = findOne (\<lambda>x. k x = j) ds"
  using assms(2) by (induction ds) (auto simp: assms(1))

lemma updateOne_member:
  "findOne q ds = Some x \<Longrightarrow> u x \<in> set (updateOne q u ds)"
  by (induction ds) (auto split: if_splits)




lemma foldl_productMap_Some:
  "foldl (\<lambda>m p. m(p_id p \<mapsto> p)) m0 ps i = Some p \<Longrightarrow>
     m0 i = Some p \<or> (p \<in> set ps \<and> p_id p = i)"
  by (induction ps arbitrary: m0) (fastforce split: if_splits)+

lemma productMapOf_SomeD:
  "productMapOf ps i = Some p \<Longrightarrow> p \<in> set ps \<and> p_id p = i"
  using foldl_productMap_Some [of Map.empty ps i p] by (simp add: productMapOf_def)




section \<open>Facts about the grouping loop\<close>

lemma firstOccurrences_Nil [simp]:
  "firstOccurrences [] = []"
  by (simp add: firstOccurrences_def)

lemma firstOccurrences_snoc:
  "firstOccurrences (xs @ [x]) =
     (if x \<in> set xs then firstOccurrences xs else firstOccurrences xs @ [x])"
  by (simp add: firstOccurrences_def)

lemma set_firstOccurrences [simp]:
  "set (firstOccurrences xs) = set xs"
  by (simp add: firstOccurrences_def)

lemma distinct_firstOccurrences [simp]:
  "distinct (firstOccurrences xs)"
  by (simp add: firstOccurrences_def)

lemma pushVendorItem_map:
  assumes "distinct vs"
  shows "pushVendorItem v it (map (\<lambda>w. (w, F w)) vs) =
     (if v \<in> set vs then map (\<lambda>w. (w, if w = v then F w @ [it] else F w)) vs
      else map (\<lambda>w. (w, F w)) vs @ [(v, [it])])"
  using assms
proof (induction vs)
  case Nil
  show ?case by simp
next
  case (Cons w vs)
  show ?case
  proof (cases "w = v")
    case True
    then have "v \<notin> set vs" using Cons.prems by simp
    then have "map (\<lambda>w. (w, if w = v then F w @ [it] else F w)) vs = map (\<lambda>w. (w, F w)) vs"
      by (intro map_cong) auto
    with True show ?thesis by simp
  next
    case False
    moreover have "distinct vs" using Cons.prems by simp
    ultimately show ?thesis using Cons.IH by simp
  qed
qed

lemma groupByVendor_snoc:
  "pushVendorItem (oi_vendorId it) it (groupByVendor ois) = groupByVendor (ois @ [it])"
proof -
  let ?v = "oi_vendorId it"
  let ?vs = "firstOccurrences (map oi_vendorId ois)"
  let ?F = "\<lambda>w. filter (\<lambda>x. oi_vendorId x = w) ois"
  let ?G = "\<lambda>w. filter (\<lambda>x. oi_vendorId x = w) (ois @ [it])"
  have push: "pushVendorItem ?v it (map (\<lambda>w. (w, ?F w)) ?vs) =
     (if ?v \<in> set ?vs then map (\<lambda>w. (w, if w = ?v then ?F w @ [it] else ?F w)) ?vs
      else map (\<lambda>w. (w, ?F w)) ?vs @ [(?v, [it])])"
    by (rule pushVendorItem_map) simp
  show ?thesis
  proof (cases "?v \<in> set ?vs")
    case True
    then have "firstOccurrences (map oi_vendorId (ois @ [it])) = ?vs"
      by (simp add: firstOccurrences_snoc)
    moreover have "map (\<lambda>w. (w, if w = ?v then ?F w @ [it] else ?F w)) ?vs = map (\<lambda>w. (w, ?G w)) ?vs"
      by (intro map_cong) auto
    ultimately show ?thesis
      using True push by (simp add: groupByVendor_def)
  next
    case False
    then have first: "firstOccurrences (map oi_vendorId (ois @ [it])) = ?vs @ [?v]"
      by (simp add: firstOccurrences_snoc)
    have "\<forall>x\<in>set ois. oi_vendorId x \<noteq> ?v"
      using False by (force simp: image_iff)
    then have new: "?F ?v = []"
      by (simp add: filter_empty_conv)
    have "map (\<lambda>w. (w, ?F w)) ?vs = map (\<lambda>w. (w, ?G w)) ?vs"
      using False by (intro map_cong) auto
    then show ?thesis
      using False push first new by (simp add: groupByVendor_def)
  qed
qed

lemma processItem_Some:
  "m (productId item) = Some p \<Longrightarrow>
   processItem m g item =
     \<lparr>vendorItems = pushVendorItem (oi_vendorId (orderItemOf p item)) (orderItemOf p item) (vendorItems g),
      g_totalAmount = g_totalAmount g + lineTotal (orderItemOf p item),
      orderItems = orderItems g @ [orderItemOf p item],
      stockUpdates = stockUpdates g @ [stockUpdateOf (orderItemOf p item)]\<rparr>"
  by (simp add: processItem_def Let_def orderItemOf_def lineTotal_def stockUpdateOf_def)

lemma processItem_None:
  "m (productId item) = None \<Longrightarrow> processItem m g item = g"
  by (simp add: processItem_def)

lemma processItem_grouped:
  assumes "grouped g"
  shows "grouped (processItem m g item)"
proof (cases "m (productId item)")
  case None
  with assms show ?thesis by (simp add: processItem_None)
next
  case (Some p)
  from assms have "pushVendorItem (oi_vendorId (orderItemOf p item)) (orderItemOf p item) (vendorItems g)
      = groupByVendor (orderItems g @ [orderItemOf p item])"
    by (simp add: grouped_def groupByVendor_snoc)
  with assms show ?thesis
    by (simp add: processItem_Some [where m = m and item = item and p = p, OF Some] grouped_def)
qed

lemma foldl_processItem_grouped:
  "grouped g \<Longrightarrow> grouped (foldl (processItem m) g its)"
  by (induction its arbitrary: g) (simp_all add: processItem_grouped)

lemma groupItems_grouped:
  "grouped (groupItems m its)"
  unfolding groupItems_def
  by (rule foldl_processItem_grouped) (simp add: grouped_def groupByVendor_def)

lemma foldl_processItem_orderItems:
  "\<forall>l\<in>set its. m (productId l) \<noteq> None \<Longrightarrow>
   orderItems (foldl (processItem m) g its) =
     orderItems g @ map (\<lambda>l. orderItemOf (the (m (productId l))) l) its"
proof (induction its arbitrary: g)
  case Nil
  show ?case by simp
next
  case (Cons l its)
  then obtain p where p: "m (productId l) = Some p" by auto
  have "orderItems (foldl (processItem m) (processItem m g l) its) =
      orderItems (processItem m g l) @ map (\<lambda>l. orderItemOf (the (m (productId l))) l) its"
    using Cons.prems by (intro Cons.IH) simp
  then show ?case
    by (simp add: processItem_Some [where m = m and item = l and p = p, OF p] p)
qed

lemma groupItems_orderItems:
  "\<forall>l\<in>set its. m (productId l) \<noteq> None \<Longrightarrow>
   orderItems (groupItems m its) = map (\<lambda>l. orderItemOf (the (m (productId l))) l) its"
  by (simp add: groupItems_def foldl_processItem_orderItems)

lemma validateStock_NoneD:
  "validateStock m its = None \<Longrightarrow>
   \<forall>l\<in>set its. \<exists>p. m (productId l) = Some p \<and> quantity l \<le> stock p"
  by (induction its) (auto split: option.splits if_splits simp: not_less)

section \<open>Facts about the persistence steps\<close>

lemma foldl_lineTotal:
  "foldl (\<lambda>sum item. sum + oi_price item * oi_quantity item) a its = a + sum_list (map lineTotal its)"
  by (induction its arbitrary: a) (simp_all add: lineTotal_def)

lemma newSubOrders_fields:
  "map so_vendorId (newSubOrders gen parent vs k) = map fst vs"
  "map so_items (newSubOrders gen parent vs k) = map snd vs"
  "map amount (newSubOrders gen parent vs k) = map (\<lambda>g. sum_list (map lineTotal (snd g))) vs"
  "length (newSubOrders gen parent vs k) = length vs"
  by (induction gen parent vs k rule: newSubOrders.induct) simp_all

lemma newSubOrders_each:
  "so \<in> set (newSubOrders gen parent vs k) \<Longrightarrow>
   parentOrderId so = parent \<and> so_status so = PENDING \<and> (so_vendorId so, so_items so) \<in> set vs
   \<and> amount so = sum_list (map lineTotal (so_items so))"
  by (induction gen parent vs k rule: newSubOrders.induct) auto

lemma createSubOrders_Inr:
  "createSubOrders gen parent vs k c = (Inr ids, c') \<Longrightarrow>
   c' = c\<lparr>transaction := (transaction c)
          \<lparr>subOrderModel := subOrderModel (transaction c) @ newSubOrders gen parent vs k\<rparr>\<rparr>
   \<and> ids = map so_id (newSubOrders gen parent vs k)
   \<and> distinct ids
   \<and> (\<forall>i\<in>set ids. i \<notin> so_id ` set (subOrderModel (transaction c)))"
proof (induction vs arbitrary: k c ids c')
  case Nil
  then show ?case by simp
next
  case (Cons a vs)
  obtain v its where a: "a = (v, its)" by (cases a)
  let ?new = "\<lparr>so_id = gen k, parentOrderId = parent, so_vendorId = v, so_items = its,
      amount = sum_list (map lineTotal its), so_status = PENDING\<rparr>"
  let ?old = "subOrderModel (transaction c)"
  let ?c0 = "c\<lparr>transaction := (transaction c)\<lparr>subOrderModel := ?old @ [?new]\<rparr>\<rparr>"
  from Cons.prems have fresh: "gen k \<notin> so_id ` set ?old"
    unfolding a by (auto simp: Let_def insertOne_def split: if_splits)
  with Cons.prems obtain ids1 where rec: "createSubOrders gen parent vs (Suc k) ?c0 = (Inr ids1, c')"
    and ids: "ids = gen k # ids1"
    unfolding a
    by (auto simp: Let_def insertOne_def foldl_lineTotal split: if_splits sum.splits prod.splits)
  from Cons.IH [OF rec]
  have c': "c' = ?c0\<lparr>transaction := (transaction ?c0)
          \<lparr>subOrderModel := subOrderModel (transaction ?c0) @ newSubOrders gen parent vs (Suc k)\<rparr>\<rparr>"
    and ids1: "ids1 = map so_id (newSubOrders gen parent vs (Suc k))"
    and dist: "distinct ids1"
    and apart: "\<forall>i\<in>set ids1. i \<notin> so_id ` set (subOrderModel (transaction ?c0))"
    by blast+
  have "c' = c\<lparr>transaction := (transaction c)
          \<lparr>subOrderModel := ?old @ newSubOrders gen parent (a # vs) k\<rparr>\<rparr>"
    unfolding c' a by simp
  moreover have "ids = map so_id (newSubOrders gen parent (a # vs) k)"
    unfolding ids ids1 a by simp
  moreover have "distinct ids"
    unfolding ids using dist apart by auto
  moreover have "\<forall>i\<in>set ids. i \<notin> so_id ` set ?old"
    unfolding ids using fresh apart by auto
  ultimately show ?case by (intro conjI)
qed

lemma applyStockUpdates_None:
  "applyStockUpdates us c = (None, c') \<Longrightarrow>
   c' = c\<lparr>transaction := (transaction c)
          \<lparr>productModel := decrementAll us (productModel (transaction c))\<rparr>\<rparr>"
proof (induction us arbitrary: c c')
  case Nil
  then show ?case by simp
next
  case (Cons u us)
  obtain r ps where dec: "decrementStock (su_productId u) (su_quantity u) (productModel (transaction c)) = (r, ps)"
    by (cases "decrementStock (su_productId u) (su_quantity u) (productModel (transaction c))")
  let ?c0 = "c\<lparr>transaction := (transaction c)\<lparr>productModel := ps\<rparr>\<rparr>"
  from Cons.prems dec have rec: "applyStockUpdates us ?c0 = (None, c')"
    by (cases r) simp_all
  from Cons.IH [OF rec] show ?case
    by (simp add: dec)
qed

lemma findOne_distinct:
  "distinct (map k xs) \<Longrightarrow> x \<in> set xs \<Longrightarrow> findOne (\<lambda>y. k y = k x) xs = Some x"
  by (induction xs) (auto simp: image_iff)

lemma map_filter_resolved:
  "\<forall>n\<in>set ns. f (g n) = Some n \<Longrightarrow> List.map_filter f (map g ns) = ns"
  by (induction ns) simp_all

lemma populate_new:
  assumes "distinct (map so_id new)" and "\<forall>n\<in>set new. so_id n \<notin> so_id ` set old"
  shows "populate (map so_id new) (old @ new) = new"
proof -
  have "findOne (\<lambda>y. so_id y = so_id n) (old @ new) = Some n" if "n \<in> set new" for n
  proof -
    have "\<forall>x\<in>set old. so_id x \<noteq> so_id n"
      using assms(2) that by (force simp: image_iff)
    then have "findOne (\<lambda>y. so_id y = so_id n) old = None"
      by (simp add: findOne_None_iff)
    moreover have "findOne (\<lambda>y. so_id y = so_id n) new = Some n"
      using assms(1) that by (rule findOne_distinct)
    ultimately show ?thesis by (simp add: findOne_append)
  qed
  then show ?thesis
    unfolding populate_def by (intro map_filter_resolved) simp
qed

lemma updateOne_append_new:
  "\<forall>x\<in>set xs. \<not> q x \<Longrightarrow> q y \<Longrightarrow> updateOne q u (xs @ [y]) = xs @ [u y]"
  by (induction xs) simp_all

section \<open>What a successful placement leaves\<close>

lemma tryCreate_Inr:
  assumes run: "tryCreate gen dto user c = (Inr order, c')"
  shows "validateStock (snapshot dto (database c)) (items dto) = None
       \<and> gen 0 \<notin> o_id ` set (orderModel (transaction c))
       \<and> order = \<lparr>o_id = gen 0, customerId = u_id user,
            o_items = orderItems (cartGrouping dto (database c)),
            totalAmount = g_totalAmount (cartGrouping dto (database c)), o_status = PENDING,
            subOrders = map so_id
              (newSubOrders gen (gen 0) (vendorItems (cartGrouping dto (database c))) 1)\<rparr>
       \<and> transaction c' =
            \<lparr>productModel = decrementAll (stockUpdates (cartGrouping dto (database c)))
               (productModel (transaction c)),
             orderModel = orderModel (transaction c) @ [order],
             subOrderModel = subOrderModel (transaction c) @
               newSubOrders gen (gen 0) (vendorItems (cartGrouping dto (database c))) 1\<rparr>
       \<and> distinct (subOrders order)
       \<and> (\<forall>i\<in>set (subOrders order). i \<notin> so_id ` set (subOrderModel (transaction c)))"
proof -
  let ?m = "snapshot dto (database c)"
  let ?g = "cartGrouping dto (database c)"
  let ?order0 = "\<lparr>o_id = gen 0, customerId = u_id user, o_items = orderItems ?g,
      totalAmount = g_totalAmount ?g, o_status = PENDING, subOrders = []\<rparr>"
  let ?old = "orderModel (transaction c)"
  let ?c1 = "c\<lparr>transaction := (transaction c)\<lparr>orderModel := ?old @ [?order0]\<rparr>\<rparr>"
  have nomiss: "filter (\<lambda>i. ?m i = None) (map productId (items dto)) = []"
    using run by (simp add: tryCreate_def Let_def snapshot_def split: if_splits)
  have valid: "validateStock ?m (items dto) = None"
    using run nomiss
    by (simp add: tryCreate_def Let_def snapshot_def split: option.splits)
  have fresh: "gen 0 \<notin> o_id ` set ?old"
    using run nomiss valid
    by (simp add: tryCreate_def Let_def snapshot_def cartGrouping_def insertOne_def split: if_splits)
  from run nomiss valid fresh obtain ids c1 where
    subs: "createSubOrders gen (gen 0) (vendorItems ?g) (Suc 0) ?c1 = (Inr ids, c1)"
    and upd: "applyStockUpdates (stockUpdates ?g)
        (c1\<lparr>transaction := (transaction c1)
           \<lparr>orderModel := updateOne (\<lambda>x. o_id x = gen 0)
              (\<lambda>x. x\<lparr>subOrders := ids\<rparr>) (orderModel (transaction c1))\<rparr>\<rparr>) = (None, c')"
    and order: "order = ?order0\<lparr>subOrders := ids\<rparr>"
    by (auto simp: tryCreate_def Let_def snapshot_def cartGrouping_def insertOne_def
        split: sum.splits prod.splits option.splits)
  from createSubOrders_Inr [OF subs]
  have c1: "c1 = ?c1\<lparr>transaction := (transaction ?c1)
        \<lparr>subOrderModel := subOrderModel (transaction ?c1) @ newSubOrders gen (gen 0) (vendorItems ?g) (Suc 0)\<rparr>\<rparr>"
    and ids: "ids = map so_id (newSubOrders gen (gen 0) (vendorItems ?g) (Suc 0))"
    and dist: "distinct ids"
    and apart: "\<forall>i\<in>set ids. i \<notin> so_id ` set (subOrderModel (transaction ?c1))"
    by blast+
  have saved: "updateOne (\<lambda>x. o_id x = gen 0) (\<lambda>x. x\<lparr>subOrders := ids\<rparr>) (?old @ [?order0])
      = ?old @ [?order0\<lparr>subOrders := ids\<rparr>]"
    using fresh by (intro updateOne_append_new) (auto simp: image_iff)
  from applyStockUpdates_None [OF upd]
  have "transaction c' =
      \<lparr>productModel = decrementAll (stockUpdates ?g) (productModel (transaction c)),
       orderModel = ?old @ [order],
       subOrderModel = subOrderModel (transaction c) @ newSubOrders gen (gen 0) (vendorItems ?g) 1\<rparr>"
    unfolding c1 order by (simp add: saved)
  moreover have "order = \<lparr>o_id = gen 0, customerId = u_id user, o_items = orderItems ?g,
      totalAmount = g_totalAmount ?g, o_status = PENDING,
      subOrders = map so_id (newSubOrders gen (gen 0) (vendorItems ?g) 1)\<rparr>"
    unfolding order ids by simp
  moreover have "distinct (subOrders order)"
    unfolding order using dist by simp
  moreover have "\<forall>i\<in>set (subOrders order). i \<notin> so_id ` set (subOrderModel (transaction c))"
    unfolding order using apart by simp
  ultimately show ?thesis
    using valid fresh by (intro conjI)
qed

lemma create_Inr:
  assumes run: "create gen dto user d = (Inr order, d')"
  shows "role user = CUSTOMER
       \<and> validateStock (snapshot dto d) (items dto) = None
       \<and> gen 0 \<notin> o_id ` set (orderModel d)
       \<and> order = \<lparr>o_id = gen 0, customerId = u_id user,
            o_items = orderItems (cartGrouping dto d),
            totalAmount = g_totalAmount (cartGrouping dto d), o_status = PENDING,
            subOrders = map so_id (newSubOrders gen (gen 0) (vendorItems (cartGrouping dto d)) 1)\<rparr>
       \<and> d' = \<lparr>productModel = decrementAll (stockUpdates (cartGrouping dto d)) (productModel d),
             orderModel = orderModel d @ [order],
             subOrderModel = subOrderModel d @
               newSubOrders gen (gen 0) (vendorItems (cartGrouping dto d)) 1\<rparr>
       \<and> distinct (subOrders order)
       \<and> (\<forall>i\<in>set (subOrders order). i \<notin> so_id ` set (subOrderModel d))"
proof -
  have customer: "role user = CUSTOMER"
    using run by (auto simp: create_def split: if_splits)
  obtain r c where t: "tryCreate gen dto user (startTransaction d) = (r, c)"
    by (cases "tryCreate gen dto user (startTransaction d)")
  from run customer t have r: "r = Inr order" and d': "d' = transaction c"
    by (cases r; simp add: create_def commitTransaction_def)+
  have start: "database (startTransaction d) = d" "transaction (startTransaction d) = d"
    by (simp_all add: startTransaction_def)
  from tryCreate_Inr [OF t [unfolded r]] customer show ?thesis
    unfolding d' start by blast
qed

section \<open>Sums over a partition\<close>

lemma sum_list_delta_absent:
  "a \<notin> set vs \<Longrightarrow> sum_list (map (\<lambda>v. if a = v then c else (0::'b::comm_monoid_add)) vs) = 0"
  by (induction vs) auto

lemma sum_list_delta:
  "distinct vs \<Longrightarrow> a \<in> set vs \<Longrightarrow>
   sum_list (map (\<lambda>v. if a = v then c else (0::'b::comm_monoid_add)) vs) = c"
  by (induction vs) (auto simp: sum_list_delta_absent)

lemma sum_list_groups:
  fixes h :: "'a \<Rightarrow> 'b::comm_monoid_add"
  assumes "distinct vs" and "k ` set xs \<subseteq> set vs"
  shows "sum_list (map (\<lambda>v. sum_list (map h (filter (\<lambda>x. k x = v) xs))) vs) = sum_list (map h xs)"
  using assms(2)
proof (induction xs)
  case Nil
  show ?case by simp
next
  case (Cons x xs)
  have split: "sum_list (map h (filter (\<lambda>y. k y = v) (x # xs))) =
      (if k x = v then h x else 0) + sum_list (map h (filter (\<lambda>y. k y = v) xs))" for v
    by simp
  have "sum_list (map (\<lambda>v. sum_list (map h (filter (\<lambda>y. k y = v) (x # xs)))) vs) =
      sum_list (map (\<lambda>v. if k x = v then h x else 0) vs)
      + sum_list (map (\<lambda>v. sum_list (map h (filter (\<lambda>y. k y = v) xs))) vs)"
    unfolding split by (rule sum_list_addf)
  also have "sum_list (map (\<lambda>v. if k x = v then h x else 0) vs) = h x"
    using assms(1) Cons.prems by (intro sum_list_delta) auto
  also have "sum_list (map (\<lambda>v. sum_list (map h (filter (\<lambda>y. k y = v) xs))) vs) = sum_list (map h xs)"
    using Cons.prems by (intro Cons.IH) auto
  finally show ?case by simp
qed

lemma sum_list_singletons:
  "sum_list (map (\<lambda>x. {#x#}) xs) = mset xs"
  by (induction xs) simp_all

lemma mset_concat_sum:
  "mset (concat xss) = sum_list (map mset xss)"
  by (induction xss) simp_all

lemma groupByVendor_keys:
  "map fst (groupByVendor ois) = firstOccurrences (map oi_vendorId ois)"
  by (simp add: groupByVendor_def comp_def)


lemma groupByVendor_mset:
  "mset (concat (map snd (groupByVendor ois))) = mset ois"
proof -
  have "sum_list (map (\<lambda>v. sum_list (map (\<lambda>x. {#x#}) (filter (\<lambda>x. oi_vendorId x = v) ois)))
      (firstOccurrences (map oi_vendorId ois))) = sum_list (map (\<lambda>x. {#x#}) ois)"
    by (rule sum_list_groups) simp_all
  then show ?thesis
    by (simp add: groupByVendor_def comp_def mset_concat_sum sum_list_singletons)
qed


section \<open>The conditional decrement\<close>



section \<open>Atomicity of order placement\<close>

lemma createSubOrders_database:
  "createSubOrders gen parent vs k c = (r, c') \<Longrightarrow> database c' = database c"
proof (induction vs arbitrary: k c r c')
  case Nil
  then show ?case by simp
next
  case (Cons a vs)
  obtain v its where a: "a = (v, its)" by (cases a)
  from Cons.prems show ?case
    unfolding a
    by (auto simp: Let_def split: sum.splits prod.splits dest: Cons.IH)
qed

lemma applyStockUpdates_database:
  "applyStockUpdates us c = (r, c') \<Longrightarrow> database c' = database c"
proof (induction us arbitrary: c r c')
  case Nil
  then show ?case by simp
next
  case (Cons u us)
  from Cons.prems show ?case
    by (auto split: sum.splits prod.splits dest: Cons.IH)
qed

lemma tryCreate_database:
  assumes "tryCreate gen dto user c = (r, c')"
  shows "database c' = database c"
  using assms unfolding tryCreate_def Let_def
  by (auto split: if_splits option.splits sum.splits prod.splits
      dest!: createSubOrders_database applyStockUpdates_database)

text \<open>
  C1. Whenever \<^verbatim>\<open>create\<close> returns an error, the database after the call is the
  database before it: no order, no sub-order and no stock decrement of the failed
  call is kept, wherever in the call the error arose.
\<close>

theorem create_atomic:
  "isl (fst (create gen dto user d)) \<Longrightarrow> snd (create gen dto user d) = d"
proof (cases "role user = CUSTOMER")
  case False
  then show ?thesis by (simp add: create_def)
next
  case True
  obtain r c where t: "tryCreate gen dto user (startTransaction d) = (r, c)"
    by (cases "tryCreate gen dto user (startTransaction d)")
  have "database c = d"
    using tryCreate_database [OF t] by (simp add: startTransaction_def)
  moreover assume "isl (fst (create gen dto user d))"
  ultimately show ?thesis
    using True t by (cases r) (simp_all add: create_def abortTransaction_def)
qed

theorem create_atomic_witness:
  "fst (create gen0 cartTwiceA customer7 db0) =
     Inl (BadRequestException (ProductNotFoundOrInsufficientStock 1))
   \<and> snd (create gen0 cartTwiceA customer7 db0) = db0
   \<and> fst (create gen0 cartAB customer7 dbTaken) =
     Inl (InternalServerErrorException (FailedToCreateOrder (DuplicateKey 1001)))
   \<and> snd (create gen0 cartAB customer7 dbTaken) = dbTaken
   \<and> fst (create gen0 cartAB customer7 dbBSoldOut) =
     Inl (BadRequestException (ProductsNotFoundOrOutOfStock [2]))
   \<and> snd (create gen0 cartAB customer7 dbBSoldOut) = dbBSoldOut"
proof -
  have reservation: "fst (create gen0 cartTwiceA customer7 db0) =
      Inl (BadRequestException (ProductNotFoundOrInsufficientStock 1))"
    by code_simp
  then have "isl (fst (create gen0 cartTwiceA customer7 db0))"
    by simp
  then have r: "snd (create gen0 cartTwiceA customer7 db0) = db0"
    by (rule create_atomic)
  have subOrder: "fst (create gen0 cartAB customer7 dbTaken) =
      Inl (InternalServerErrorException (FailedToCreateOrder (DuplicateKey 1001)))"
    by code_simp
  then have "isl (fst (create gen0 cartAB customer7 dbTaken))"
    by simp
  then have s: "snd (create gen0 cartAB customer7 dbTaken) = dbTaken"
    by (rule create_atomic)
  have validation: "fst (create gen0 cartAB customer7 dbBSoldOut) =
      Inl (BadRequestException (ProductsNotFoundOrOutOfStock [2]))"
    by code_simp
  then have "isl (fst (create gen0 cartAB customer7 dbBSoldOut))"
    by simp
  then have v: "snd (create gen0 cartAB customer7 dbBSoldOut) = dbBSoldOut"
    by (rule create_atomic)
  from reservation r subOrder s validation v show ?thesis by (intro conjI)
qed

section \<open>Status updates\<close>

text \<open>
  C10. When the target is a sub-order the caller may update and its
  \<^verbatim>\<open>parentOrderId\<close> names no order, \<^verbatim>\<open>updateOrderStatus\<close> returns NotFound, and
  the database it leaves already holds the sub-order with the new status: the
  error does not undo the write.
\<close>

theorem updateOrderStatus_orphan:
  assumes notParent: "findOne (\<lambda>x. o_id x = i) (orderModel d) = None"
    and sub: "findOne (\<lambda>x. so_id x = i) (subOrderModel d) = Some so"
    and allowed: "role user = VENDOR \<longrightarrow> so_vendorId so = u_id user"
    and orphan: "findOne (\<lambda>x. o_id x = parentOrderId so) (orderModel d) = None"
  shows "fst (updateOrderStatus i s user d) =
           Inl (NotFoundException (ParentOrderNotFoundForSubOrder i))
       \<and> findOne (\<lambda>x. so_id x = i) (subOrderModel (snd (updateOrderStatus i s user d))) =
           Some (so\<lparr>so_status := s\<rparr>)
       \<and> (so_status so \<noteq> s \<longrightarrow> snd (updateOrderStatus i s user d) \<noteq> d)"
proof -
  let ?d1 = "d\<lparr>subOrderModel := updateOne (\<lambda>x. so_id x = i)
                (\<lambda>x. x\<lparr>so_status := s\<rparr>) (subOrderModel d)\<rparr>"
  have run: "updateOrderStatus i s user d =
      (Inl (NotFoundException (ParentOrderNotFoundForSubOrder i)), ?d1)"
    using assms by (simp add: updateOrderStatus_def)
  have found: "findOne (\<lambda>x. so_id x = i) (subOrderModel ?d1) = Some (so\<lparr>so_status := s\<rparr>)"
    using sub findOne_updateOne_same [of so_id "\<lambda>x. x\<lparr>so_status := s\<rparr>" i "subOrderModel d"]
    by simp
  have changed: "?d1 \<noteq> d" if "so_status so \<noteq> s"
  proof
    assume "?d1 = d"
    then have "subOrderModel ?d1 = subOrderModel d" by simp
    then have "Some (so\<lparr>so_status := s\<rparr>) = Some so"
      using found sub by simp
    then have "so_status (so\<lparr>so_status := s\<rparr>) = so_status so" by simp
    with that show False by simp
  qed
  show ?thesis using run found changed by simp
qed

theorem updateOrderStatus_orphan_witness:
  "findOne (\<lambda>x. o_id x = 60) (orderModel db1) = None
   \<and> findOne (\<lambda>x. so_id x = 60) (subOrderModel db1) = Some (sampleSubOrder 60 99 103 PENDING)
   \<and> findOne (\<lambda>x. o_id x = 99) (orderModel db1) = None
   \<and> fst (updateOrderStatus 60 SHIPPED vendor103 db1) =
        Inl (NotFoundException (ParentOrderNotFoundForSubOrder 60))
   \<and> findOne (\<lambda>x. so_id x = 60) (subOrderModel (snd (updateOrderStatus 60 SHIPPED vendor103 db1))) =
        Some (sampleSubOrder 60 99 103 SHIPPED)
   \<and> snd (updateOrderStatus 60 SHIPPED vendor103 db1) \<noteq> db1"
proof -
  have h1: "findOne (\<lambda>x. o_id x = 60) (orderModel db1) = None"
    by code_simp
  have h2: "findOne (\<lambda>x. so_id x = 60) (subOrderModel db1) = Some (sampleSubOrder 60 99 103 PENDING)"
    by code_simp
  have h3: "role vendor103 = VENDOR \<longrightarrow> so_vendorId (sampleSubOrder 60 99 103 PENDING) = u_id vendor103"
    by (simp add: vendor103_def sampleSubOrder_def)
  have h4: "findOne (\<lambda>x. o_id x = parentOrderId (sampleSubOrder 60 99 103 PENDING)) (orderModel db1) = None"
    by code_simp
  have h5: "findOne (\<lambda>x. o_id x = 99) (orderModel db1) = None"
    by code_simp
  have c: "fst (updateOrderStatus 60 SHIPPED vendor103 db1) =
        Inl (NotFoundException (ParentOrderNotFoundForSubOrder 60))
   \<and> findOne (\<lambda>x. so_id x = 60) (subOrderModel (snd (updateOrderStatus 60 SHIPPED vendor103 db1))) =
        Some (sampleSubOrder 60 99 103 SHIPPED)
   \<and> snd (updateOrderStatus 60 SHIPPED vendor103 db1) \<noteq> db1"
    using updateOrderStatus_orphan [OF h1 h2 h3 h4, of SHIPPED]
    by (simp add: sampleSubOrder_def)
  from h1 h2 h5 c show ?thesis by (intro conjI) simp_all
qed

lemma set_map_filter_eq:
  "set (List.map_filter f xs) = {y. \<exists>x\<in>set xs. f x = Some y}"
  by (induction xs) (auto split: option.splits)

lemma populate_ids:
  "set (map so_id (populate ids subs)) = set ids \<inter> so_id ` set subs"
proof (intro equalityI subsetI)
  fix j assume "j \<in> set (map so_id (populate ids subs))"
  then obtain i so where "i \<in> set ids" "findOne (\<lambda>x. so_id x = i) subs = Some so" "j = so_id so"
    by (auto simp: populate_def set_map_filter_eq)
  then show "j \<in> set ids \<inter> so_id ` set subs"
    using findOne_SomeD [of "\<lambda>x. so_id x = i" subs so] by auto
next
  fix j assume j: "j \<in> set ids \<inter> so_id ` set subs"
  then have "findOne (\<lambda>x. so_id x = j) subs \<noteq> None"
    by (auto simp: findOne_None_iff)
  then obtain so where so: "findOne (\<lambda>x. so_id x = j) subs = Some so"
    by auto
  then have id: "so_id so = j"
    using findOne_SomeD [of "\<lambda>x. so_id x = j" subs so] by simp
  from j so have "so \<in> set (populate ids subs)"
    unfolding populate_def set_map_filter_eq by blast
  then have "so_id so \<in> set (map so_id (populate ids subs))"
    by simp
  with id show "j \<in> set (map so_id (populate ids subs))"
    by simp
qed

lemma updateMany_populated:
  "(if populate ids subs \<noteq> []
    then updateMany (\<lambda>so. so_id so \<in> set (map so_id (populate ids subs))) u subs
    else subs)
   = map (\<lambda>so. if so_id so \<in> set ids then u so else so) subs"
proof (cases "populate ids subs = []")
  case True
  then have "set ids \<inter> so_id ` set subs = {}"
    using populate_ids [of ids subs] by simp
  then have "\<forall>so\<in>set subs. so_id so \<notin> set ids"
    by auto
  then have "map (\<lambda>so. if so_id so \<in> set ids then u so else so) subs = subs"
    by (induction subs) auto
  with True show ?thesis by simp
next
  case False
  have "\<forall>so\<in>set subs. (so_id so \<in> set (map so_id (populate ids subs))) = (so_id so \<in> set ids)"
    using populate_ids [of ids subs] by auto
  then have "updateMany (\<lambda>so. so_id so \<in> set (map so_id (populate ids subs))) u subs
      = map (\<lambda>so. if so_id so \<in> set ids then u so else so) subs"
    unfolding updateMany_def by (intro map_cong) simp_all
  with False show ?thesis by simp
qed

text \<open>
  C4. When the target id names a parent order: for a vendor the call fails with
  Forbidden and the database is unchanged; for an admin the parent's status
  becomes the new value and every sub-order the parent references gets the same
  value, whatever its status was, all other sub-orders staying as they were. Where
  the references cover all sub-orders with that \<^verbatim>\<open>parentOrderId\<close>, all of those
  carry the new value.
\<close>

theorem updateOrderStatus_parent:
  assumes parent: "findOne (\<lambda>x. o_id x = i) (orderModel d) = Some order"
    and res: "updateOrderStatus i s user d = (r, d')"
  shows "(role user = VENDOR \<longrightarrow>
            r = Inl (ForbiddenException VendorsOnlyUpdateOwnSubOrders) \<and> d' = d)
       \<and> (role user = ADMIN \<longrightarrow>
            r = Inr (OrderDocument (order\<lparr>o_status := s\<rparr>))
          \<and> findOne (\<lambda>x. o_id x = i) (orderModel d') = Some (order\<lparr>o_status := s\<rparr>)
          \<and> subOrderModel d' =
              map (\<lambda>so. if so_id so \<in> set (subOrders order) then so\<lparr>so_status := s\<rparr> else so)
                (subOrderModel d)
          \<and> (\<forall>so\<in>set (subOrderModel d'). so_id so \<in> set (subOrders order) \<longrightarrow> so_status so = s)
          \<and> ((\<forall>so\<in>set (subOrderModel d). parentOrderId so = i \<longrightarrow> so_id so \<in> set (subOrders order))
              \<longrightarrow> (\<forall>so\<in>set (subOrderModel d'). parentOrderId so = i \<longrightarrow> so_status so = s))
          \<and> productModel d' = productModel d)"
proof (intro conjI impI)
  assume "role user = VENDOR"
  then show "r = Inl (ForbiddenException VendorsOnlyUpdateOwnSubOrders)" and "d' = d"
    using parent res by (simp_all add: updateOrderStatus_def)
next
  assume admin: "role user = ADMIN"
  let ?os = "updateOne (\<lambda>x. o_id x = i) (\<lambda>x. x\<lparr>o_status := s\<rparr>) (orderModel d)"
  let ?subs = "map (\<lambda>so. if so_id so \<in> set (subOrders order) then so\<lparr>so_status := s\<rparr> else so)
                (subOrderModel d)"
  have run: "r = Inr (OrderDocument (order\<lparr>o_status := s\<rparr>))
      \<and> orderModel d' = ?os \<and> subOrderModel d' = ?subs \<and> productModel d' = productModel d"
    using parent res admin
      updateMany_populated [of "subOrders order" "subOrderModel d" "\<lambda>so. so\<lparr>so_status := s\<rparr>"]
    by (auto simp: updateOrderStatus_def Let_def split: if_splits)
  then show "r = Inr (OrderDocument (order\<lparr>o_status := s\<rparr>))"
    and subs: "subOrderModel d' = ?subs"
    and "productModel d' = productModel d"
    by simp_all
  show "findOne (\<lambda>x. o_id x = i) (orderModel d') = Some (order\<lparr>o_status := s\<rparr>)"
    using run parent findOne_updateOne_same [of o_id "\<lambda>x. x\<lparr>o_status := s\<rparr>" i "orderModel d"]
    by simp
  show referenced: "\<forall>so\<in>set (subOrderModel d'). so_id so \<in> set (subOrders order) \<longrightarrow> so_status so = s"
    unfolding subs by auto
  {
    assume cover: "\<forall>so\<in>set (subOrderModel d). parentOrderId so = i \<longrightarrow> so_id so \<in> set (subOrders order)"
    show "\<forall>so\<in>set (subOrderModel d'). parentOrderId so = i \<longrightarrow> so_status so = s"
      unfolding subs using cover by auto
  }
qed

theorem updateOrderStatus_parent_witness:
  "findOne (\<lambda>x. o_id x = 50) (orderModel db1) = Some order50
   \<and> updateOrderStatus 50 DELIVERED vendor103 db1 =
       (Inl (ForbiddenException VendorsOnlyUpdateOwnSubOrders), db1)
   \<and> fst (updateOrderStatus 50 CANCELLED admin1 db1) =
       Inr (OrderDocument (order50\<lparr>o_status := CANCELLED\<rparr>))
   \<and> findOne (\<lambda>x. o_id x = 50) (orderModel (snd (updateOrderStatus 50 CANCELLED admin1 db1))) =
       Some (order50\<lparr>o_status := CANCELLED\<rparr>)
   \<and> subOrderModel (snd (updateOrderStatus 50 CANCELLED admin1 db1)) =
       [sampleSubOrder 51 50 101 CANCELLED, sampleSubOrder 52 50 102 CANCELLED,
        sampleSubOrder 53 50 103 CANCELLED, sampleSubOrder 60 99 103 PENDING,
        sampleSubOrder 71 70 101 PENDING]
   \<and> list_all (\<lambda>so. so_status so = CANCELLED)
        (filter (\<lambda>so. parentOrderId so = 50)
           (subOrderModel (snd (updateOrderStatus 50 CANCELLED admin1 db1))))"
proof -
  have parent: "findOne (\<lambda>x. o_id x = 50) (orderModel db1) = Some order50"
    by code_simp
  have vendor: "updateOrderStatus 50 DELIVERED vendor103 db1 =
      (Inl (ForbiddenException VendorsOnlyUpdateOwnSubOrders), db1)"
    using updateOrderStatus_parent [OF parent, of DELIVERED vendor103
        "fst (updateOrderStatus 50 DELIVERED vendor103 db1)"
        "snd (updateOrderStatus 50 DELIVERED vendor103 db1)"]
    by (simp add: vendor103_def prod_eq_iff)
  have subs: "subOrderModel db1 =
      [sampleSubOrder 51 50 101 SHIPPED, sampleSubOrder 52 50 102 SHIPPED,
       sampleSubOrder 53 50 103 PENDING, sampleSubOrder 60 99 103 PENDING,
       sampleSubOrder 71 70 101 PENDING]"
    by (simp add: db1_def)
  have admin: "fst (updateOrderStatus 50 CANCELLED admin1 db1) =
       Inr (OrderDocument (order50\<lparr>o_status := CANCELLED\<rparr>))
   \<and> findOne (\<lambda>x. o_id x = 50) (orderModel (snd (updateOrderStatus 50 CANCELLED admin1 db1))) =
       Some (order50\<lparr>o_status := CANCELLED\<rparr>)
   \<and> subOrderModel (snd (updateOrderStatus 50 CANCELLED admin1 db1)) =
       [sampleSubOrder 51 50 101 CANCELLED, sampleSubOrder 52 50 102 CANCELLED,
        sampleSubOrder 53 50 103 CANCELLED, sampleSubOrder 60 99 103 PENDING,
        sampleSubOrder 71 70 101 PENDING]"
    using updateOrderStatus_parent [OF parent, of CANCELLED admin1
        "fst (updateOrderStatus 50 CANCELLED admin1 db1)"
        "snd (updateOrderStatus 50 CANCELLED admin1 db1)"]
    by (simp add: admin1_def subs sampleSubOrder_def order50_def)
  from admin have children: "list_all (\<lambda>so. so_status so = CANCELLED)
      (filter (\<lambda>so. parentOrderId so = 50)
         (subOrderModel (snd (updateOrderStatus 50 CANCELLED admin1 db1))))"
    by (simp add: sampleSubOrder_def)
  from parent vendor admin children show ?thesis by (intro conjI) simp_all
qed

text \<open>
  C3. When the target id names a sub-order (and no order), its parent order exists
  and the caller is an admin or the vendor owning the sub-order: the call returns
  the sub-order with the new status, that sub-order is stored with the new status
  and no other sub-order changes; the parent's status becomes the new value when
  the parent has exactly one sub-order or when all its sub-orders now carry the new
  value, and otherwise stays as it was; no other order and no product changes.
\<close>

theorem updateOrderStatus_subOrder:
  assumes notParent: "findOne (\<lambda>x. o_id x = i) (orderModel d) = None"
    and sub: "findOne (\<lambda>x. so_id x = i) (subOrderModel d) = Some so"
    and authorized: "role user = ADMIN \<or> (role user = VENDOR \<and> so_vendorId so = u_id user)"
    and parent: "findOne (\<lambda>x. o_id x = parentOrderId so) (orderModel d) = Some p"
    and res: "updateOrderStatus i s user d = (r, d')"
  shows "r = Inr (SubOrderDocument (so\<lparr>so_status := s\<rparr>))
       \<and> findOne (\<lambda>x. so_id x = i) (subOrderModel d') = Some (so\<lparr>so_status := s\<rparr>)
       \<and> (\<forall>j. j \<noteq> i \<longrightarrow>
            findOne (\<lambda>x. so_id x = j) (subOrderModel d') = findOne (\<lambda>x. so_id x = j) (subOrderModel d))
       \<and> 1 \<le> length (filter (\<lambda>x. parentOrderId x = parentOrderId so) (subOrderModel d'))
       \<and> findOne (\<lambda>x. o_id x = parentOrderId so) (orderModel d') =
           Some (p\<lparr>o_status :=
             (if length (filter (\<lambda>x. parentOrderId x = parentOrderId so) (subOrderModel d')) = 1
                 \<or> list_all (\<lambda>x. so_status x = s)
                      (filter (\<lambda>x. parentOrderId x = parentOrderId so) (subOrderModel d'))
              then s else o_status p)\<rparr>)
       \<and> (\<forall>j. j \<noteq> parentOrderId so \<longrightarrow>
            findOne (\<lambda>x. o_id x = j) (orderModel d') = findOne (\<lambda>x. o_id x = j) (orderModel d))
       \<and> productModel d' = productModel d"
proof -
  let ?set = "\<lambda>x. x\<lparr>so_status := s\<rparr>"
  let ?subs = "updateOne (\<lambda>x. so_id x = i) ?set (subOrderModel d)"
  let ?sibs = "filter (\<lambda>x. parentOrderId x = parentOrderId so) ?subs"
  let ?os = "updateOne (\<lambda>x. o_id x = parentOrderId so) (\<lambda>x. x\<lparr>o_status := s\<rparr>) (orderModel d)"
  let ?adopt = "length ?sibs = 1 \<or> list_all (\<lambda>x. so_status x = s) ?sibs"
  have pid: "o_id p = parentOrderId so"
    using findOne_SomeD [OF parent] by simp
  have vendor_ok: "\<not> (role user = VENDOR \<and> so_vendorId so \<noteq> u_id user)"
    using authorized by auto
  have "?set so \<in> set ?subs"
    using sub by (rule updateOne_member)
  then have "?set so \<in> set ?sibs"
    by simp
  then have nonempty: "1 \<le> length ?sibs"
    by (cases ?sibs) simp_all
  have run: "updateOrderStatus i s user d =
      (Inr (SubOrderDocument (?set so)),
       if ?adopt then d\<lparr>subOrderModel := ?subs, orderModel := ?os\<rparr> else d\<lparr>subOrderModel := ?subs\<rparr>)"
  proof (cases "length ?sibs = 1")
    case True
    then show ?thesis
      using notParent sub vendor_ok parent pid
      by (simp add: updateOrderStatus_def Let_def)
  next
    case False
    with nonempty have "1 < length ?sibs" by simp
    with False show ?thesis
      using notParent sub vendor_ok parent pid
      by (simp add: updateOrderStatus_def Let_def)
  qed
  from run res have r: "r = Inr (SubOrderDocument (?set so))"
    and d': "d' = (if ?adopt then d\<lparr>subOrderModel := ?subs, orderModel := ?os\<rparr>
                   else d\<lparr>subOrderModel := ?subs\<rparr>)"
    by simp_all
  have subs': "subOrderModel d' = ?subs"
    unfolding d' by simp
  have prods: "productModel d' = productModel d"
    unfolding d' by simp
  have os': "orderModel d' = (if ?adopt then ?os else orderModel d)"
    unfolding d' by simp
  have target: "findOne (\<lambda>x. so_id x = i) ?subs = Some (?set so)"
    using sub findOne_updateOne_same [of so_id ?set i "subOrderModel d"] by simp
  have others: "\<forall>j. j \<noteq> i \<longrightarrow>
      findOne (\<lambda>x. so_id x = j) ?subs = findOne (\<lambda>x. so_id x = j) (subOrderModel d)"
    using findOne_updateOne_other [of so_id ?set _ i "subOrderModel d"] by simp
  have parent': "findOne (\<lambda>x. o_id x = parentOrderId so) (orderModel d') =
      Some (p\<lparr>o_status := (if ?adopt then s else o_status p)\<rparr>)"
  proof (cases ?adopt)
    case True
    then show ?thesis
      using parent os'
        findOne_updateOne_same [of o_id "\<lambda>x. x\<lparr>o_status := s\<rparr>" "parentOrderId so" "orderModel d"]
      by simp
  next
    case False
    then show ?thesis using parent os' by simp
  qed
  have orders: "\<forall>j. j \<noteq> parentOrderId so \<longrightarrow>
      findOne (\<lambda>x. o_id x = j) (orderModel d') = findOne (\<lambda>x. o_id x = j) (orderModel d)"
    using os'
      findOne_updateOne_other [of o_id "\<lambda>x. x\<lparr>o_status := s\<rparr>" _ "parentOrderId so" "orderModel d"]
    by simp
  show ?thesis
    using r target others nonempty parent' orders prods unfolding subs' by (intro conjI)
qed

theorem updateOrderStatus_subOrder_witness:
  "fst (updateOrderStatus 53 SHIPPED vendor103 db1) =
      Inr (SubOrderDocument (sampleSubOrder 53 50 103 SHIPPED))
   \<and> findOne (\<lambda>x. o_id x = 50) (orderModel (snd (updateOrderStatus 53 SHIPPED vendor103 db1))) =
      Some (order50\<lparr>o_status := SHIPPED\<rparr>)
   \<and> findOne (\<lambda>x. o_id x = 50) (orderModel (snd (updateOrderStatus 53 CANCELLED vendor103 db1))) =
      Some order50
   \<and> findOne (\<lambda>x. so_id x = 53) (subOrderModel (snd (updateOrderStatus 53 CANCELLED vendor103 db1))) =
      Some (sampleSubOrder 53 50 103 CANCELLED)
   \<and> findOne (\<lambda>x. o_id x = 70) (orderModel (snd (updateOrderStatus 71 DELIVERED admin1 db1))) =
      Some (order70\<lparr>o_status := DELIVERED\<rparr>)"
proof -
  have n53: "findOne (\<lambda>x. o_id x = 53) (orderModel db1) = None"
    by code_simp
  have s53: "findOne (\<lambda>x. so_id x = 53) (subOrderModel db1) = Some (sampleSubOrder 53 50 103 PENDING)"
    by code_simp
  have a53: "role vendor103 = ADMIN \<or>
      (role vendor103 = VENDOR \<and> so_vendorId (sampleSubOrder 53 50 103 PENDING) = u_id vendor103)"
    by (simp add: vendor103_def sampleSubOrder_def)
  have p53: "findOne (\<lambda>x. o_id x = parentOrderId (sampleSubOrder 53 50 103 PENDING)) (orderModel db1)
      = Some order50"
    by code_simp
  have sibsShipped: "filter (\<lambda>x. parentOrderId x = 50)
      (subOrderModel (snd (updateOrderStatus 53 SHIPPED vendor103 db1))) =
      [sampleSubOrder 51 50 101 SHIPPED, sampleSubOrder 52 50 102 SHIPPED,
       sampleSubOrder 53 50 103 SHIPPED]"
    by code_simp
  have sibsCancelled: "filter (\<lambda>x. parentOrderId x = 50)
      (subOrderModel (snd (updateOrderStatus 53 CANCELLED vendor103 db1))) =
      [sampleSubOrder 51 50 101 SHIPPED, sampleSubOrder 52 50 102 SHIPPED,
       sampleSubOrder 53 50 103 CANCELLED]"
    by code_simp
  have shipped: "fst (updateOrderStatus 53 SHIPPED vendor103 db1) =
      Inr (SubOrderDocument (sampleSubOrder 53 50 103 SHIPPED))
    \<and> findOne (\<lambda>x. o_id x = 50) (orderModel (snd (updateOrderStatus 53 SHIPPED vendor103 db1))) =
      Some (order50\<lparr>o_status := SHIPPED\<rparr>)"
    using updateOrderStatus_subOrder [OF n53 s53 a53 p53, of SHIPPED
        "fst (updateOrderStatus 53 SHIPPED vendor103 db1)"
        "snd (updateOrderStatus 53 SHIPPED vendor103 db1)"]
    by (simp add: sampleSubOrder_def sibsShipped)
  have cancelled: "findOne (\<lambda>x. o_id x = 50)
        (orderModel (snd (updateOrderStatus 53 CANCELLED vendor103 db1))) = Some order50
    \<and> findOne (\<lambda>x. so_id x = 53) (subOrderModel (snd (updateOrderStatus 53 CANCELLED vendor103 db1))) =
      Some (sampleSubOrder 53 50 103 CANCELLED)"
    using updateOrderStatus_subOrder [OF n53 s53 a53 p53, of CANCELLED
        "fst (updateOrderStatus 53 CANCELLED vendor103 db1)"
        "snd (updateOrderStatus 53 CANCELLED vendor103 db1)"]
    by (simp add: sampleSubOrder_def sibsCancelled)
  have n71: "findOne (\<lambda>x. o_id x = 71) (orderModel db1) = None"
    by code_simp
  have s71: "findOne (\<lambda>x. so_id x = 71) (subOrderModel db1) = Some (sampleSubOrder 71 70 101 PENDING)"
    by code_simp
  have a71: "role admin1 = ADMIN \<or>
      (role admin1 = VENDOR \<and> so_vendorId (sampleSubOrder 71 70 101 PENDING) = u_id admin1)"
    by (simp add: admin1_def)
  have p71: "findOne (\<lambda>x. o_id x = parentOrderId (sampleSubOrder 71 70 101 PENDING)) (orderModel db1)
      = Some order70"
    by code_simp
  have sibsSingle: "filter (\<lambda>x. parentOrderId x = 70)
      (subOrderModel (snd (updateOrderStatus 71 DELIVERED admin1 db1))) =
      [sampleSubOrder 71 70 101 DELIVERED]"
    by code_simp
  have single: "findOne (\<lambda>x. o_id x = 70) (orderModel (snd (updateOrderStatus 71 DELIVERED admin1 db1))) =
      Some (order70\<lparr>o_status := DELIVERED\<rparr>)"
    using updateOrderStatus_subOrder [OF n71 s71 a71 p71, of DELIVERED
        "fst (updateOrderStatus 71 DELIVERED admin1 db1)"
        "snd (updateOrderStatus 71 DELIVERED admin1 db1)"]
    by (simp add: sampleSubOrder_def sibsSingle)
  from shipped cancelled single show ?thesis by (intro conjI) simp_all
qed

section \<open>Unavailable products\<close>



section \<open>Amounts and partition of a placed order\<close>

lemma create_populated:
  assumes run: "create gen dto user d = (Inr order, d')"
  shows "populate (subOrders order) (subOrderModel d') =
           newSubOrders gen (gen 0) (groupByVendor (o_items order)) 1
       \<and> totalAmount order = sum_list (map lineTotal (o_items order))
       \<and> o_items order =
           map (\<lambda>l. orderItemOf (the (snapshot dto d (productId l))) l) (items dto)
       \<and> findOne (\<lambda>x. o_id x = o_id order) (orderModel d') = Some order
       \<and> subOrders order = map so_id (newSubOrders gen (gen 0) (groupByVendor (o_items order)) 1)
       \<and> o_id order = gen 0"
proof -
  let ?g = "cartGrouping dto d"
  let ?new = "newSubOrders gen (gen 0) (vendorItems ?g) 1"
  from create_Inr [OF run]
  have valid: "validateStock (snapshot dto d) (items dto) = None"
    and fresh: "gen 0 \<notin> o_id ` set (orderModel d)"
    and order: "order = \<lparr>o_id = gen 0, customerId = u_id user, o_items = orderItems ?g,
        totalAmount = g_totalAmount ?g, o_status = PENDING, subOrders = map so_id ?new\<rparr>"
    and d': "d' = \<lparr>productModel = decrementAll (stockUpdates ?g) (productModel d),
        orderModel = orderModel d @ [order], subOrderModel = subOrderModel d @ ?new\<rparr>"
    and dist: "distinct (subOrders order)"
    and apart: "\<forall>i\<in>set (subOrders order). i \<notin> so_id ` set (subOrderModel d)"
    by blast+
  have g: "grouped ?g"
    unfolding cartGrouping_def by (rule groupItems_grouped)
  have items: "o_items order = orderItems ?g" and refs: "subOrders order = map so_id ?new"
    and total: "totalAmount order = g_totalAmount ?g" and oid: "o_id order = gen 0"
    unfolding order by simp_all
  have vend: "vendorItems ?g = groupByVendor (o_items order)"
    using g unfolding items grouped_def by simp
  have "populate (map so_id ?new) (subOrderModel d @ ?new) = ?new"
    using dist apart unfolding refs by (intro populate_new) auto
  then have pop: "populate (subOrders order) (subOrderModel d') = ?new"
    unfolding refs d' by simp
  have sum: "totalAmount order = sum_list (map lineTotal (o_items order))"
    using g unfolding items total grouped_def by simp
  have "\<forall>l\<in>set (items dto). snapshot dto d (productId l) \<noteq> None"
    using validateStock_NoneD [OF valid] by auto
  then have lines: "o_items order =
      map (\<lambda>l. orderItemOf (the (snapshot dto d (productId l))) l) (items dto)"
    unfolding items cartGrouping_def by (rule groupItems_orderItems)
  have "\<forall>x\<in>set (orderModel d). o_id x \<noteq> gen 0"
    using fresh by (force simp: image_iff)
  then have "findOne (\<lambda>x. o_id x = gen 0) (orderModel d) = None"
    by (simp add: findOne_None_iff)
  then have stored: "findOne (\<lambda>x. o_id x = o_id order) (orderModel d') = Some order"
    unfolding d' oid using oid by (simp add: findOne_append)
  from pop sum lines stored refs oid show ?thesis
    unfolding vend by (intro conjI)
qed



text \<open>
  C7. After a successful \<^verbatim>\<open>create\<close>: the order's items are the cart lines, in cart
  order, each with the vendor of a product of that id in the catalogue; the
  sub-orders the order references are one per vendor, their vendors being the
  vendors of the items in the order of first occurrence in the cart; each
  sub-order holds exactly the items of its vendor, in cart order; and the items of
  all sub-orders together are the order's items, each as often as in the cart.
\<close>

theorem create_partition:
  assumes run: "create gen dto user d = (Inr order, d')"
    and subs: "sos = populate (subOrders order) (subOrderModel d')"
  shows "map so_id sos = subOrders order
       \<and> map (\<lambda>it. (oi_productId it, oi_quantity it)) (o_items order) =
           map (\<lambda>l. (productId l, quantity l)) (items dto)
       \<and> (\<forall>it\<in>set (o_items order).
             \<exists>p\<in>set (productModel d). p_id p = oi_productId it \<and> p_vendorId p = oi_vendorId it)
       \<and> map so_vendorId sos = firstOccurrences (map oi_vendorId (o_items order))
       \<and> distinct (map so_vendorId sos)
       \<and> (\<forall>so\<in>set sos.
             so_items so = filter (\<lambda>it. oi_vendorId it = so_vendorId so) (o_items order)
             \<and> parentOrderId so = o_id order)
       \<and> mset (concat (map so_items sos)) = mset (o_items order)"
proof -
  let ?new = "newSubOrders gen (gen 0) (groupByVendor (o_items order)) 1"
  from create_populated [OF run]
  have pop: "sos = ?new"
    and lines: "o_items order =
      map (\<lambda>l. orderItemOf (the (snapshot dto d (productId l))) l) (items dto)"
    and refs: "subOrders order = map so_id ?new"
    and oid: "o_id order = gen 0"
    unfolding subs by blast+
  from create_Inr [OF run] have valid: "validateStock (snapshot dto d) (items dto) = None"
    by blast
  have ids: "map so_id sos = subOrders order"
    unfolding pop refs by simp
  have cart: "map (\<lambda>it. (oi_productId it, oi_quantity it)) (o_items order) =
      map (\<lambda>l. (productId l, quantity l)) (items dto)"
    unfolding lines by (simp add: orderItemOf_def comp_def)
  have vendor: "\<forall>it\<in>set (o_items order).
      \<exists>p\<in>set (productModel d). p_id p = oi_productId it \<and> p_vendorId p = oi_vendorId it"
  proof
    fix it assume "it \<in> set (o_items order)"
    then obtain l where l: "l \<in> set (items dto)"
      and it: "it = orderItemOf (the (snapshot dto d (productId l))) l"
      unfolding lines by auto
    from validateStock_NoneD [OF valid] l obtain p where p: "snapshot dto d (productId l) = Some p"
      by blast
    then have "p \<in> set (getProductsInStock (map productId (items dto)) (productModel d))"
      and "p_id p = productId l"
      using productMapOf_SomeD [of "getProductsInStock (map productId (items dto)) (productModel d)"
          "productId l" p]
      by (simp_all add: snapshot_def)
    then have "p \<in> set (productModel d)" and "p_id p = oi_productId it"
      and "p_vendorId p = oi_vendorId it"
      unfolding it p by (simp_all add: getProductsInStock_def orderItemOf_def)
    then show "\<exists>p\<in>set (productModel d). p_id p = oi_productId it \<and> p_vendorId p = oi_vendorId it"
      by blast
  qed
  have vendors: "map so_vendorId sos = firstOccurrences (map oi_vendorId (o_items order))"
    unfolding pop by (simp add: newSubOrders_fields groupByVendor_keys)
  then have dist: "distinct (map so_vendorId sos)"
    by simp
  have each: "\<forall>so\<in>set sos.
      so_items so = filter (\<lambda>it. oi_vendorId it = so_vendorId so) (o_items order)
      \<and> parentOrderId so = o_id order"
  proof
    fix so assume "so \<in> set sos"
    then have "parentOrderId so = gen 0"
      and "(so_vendorId so, so_items so) \<in> set (groupByVendor (o_items order))"
      unfolding pop
      using newSubOrders_each [of so gen "gen 0" "groupByVendor (o_items order)" 1]
      by simp_all
    then show "so_items so = filter (\<lambda>it. oi_vendorId it = so_vendorId so) (o_items order)
        \<and> parentOrderId so = o_id order"
      unfolding oid by (auto simp: groupByVendor_def)
  qed
  have all: "mset (concat (map so_items sos)) = mset (o_items order)"
    unfolding pop by (simp add: newSubOrders_fields groupByVendor_mset)
  from ids cart vendor vendors dist each all show ?thesis
    by (intro conjI)
qed

theorem create_partition_witness:
  "create gen0 cartABC customer7 dbABC = (Inr orderABC, dbABCPlaced)
   \<and> populate (subOrders orderABC) (subOrderModel dbABCPlaced) = [subOrderAC, subOrderB]
   \<and> map oi_vendorId (o_items orderABC) = [101, 102, 101]
   \<and> map so_vendorId [subOrderAC, subOrderB] = [101, 102]
   \<and> map so_items [subOrderAC, subOrderB] = [[itemA, itemC], [itemB]]
   \<and> mset (concat (map so_items [subOrderAC, subOrderB])) = mset (o_items orderABC)"
proof -
  have run: "create gen0 cartABC customer7 dbABC = (Inr orderABC, dbABCPlaced)"
    by code_simp
  have pop: "[subOrderAC, subOrderB] = populate (subOrders orderABC) (subOrderModel dbABCPlaced)"
    by code_simp
  have vs: "map oi_vendorId (o_items orderABC) = [101, 102, 101]"
    by (simp add: orderABC_def itemA_def itemB_def itemC_def)
  have first: "firstOccurrences [101, 102, 101 :: nat] = [101, 102]"
    by (simp add: firstOccurrences_def)
  have its: "map so_items [subOrderAC, subOrderB] = [[itemA, itemC], [itemB]]"
    by (simp add: subOrderAC_def subOrderB_def)
  from create_partition [OF run pop]
  have vendors: "map so_vendorId [subOrderAC, subOrderB] = [101, 102]"
    and all: "mset (concat (map so_items [subOrderAC, subOrderB])) = mset (o_items orderABC)"
    unfolding vs first by blast+
  from run pop [symmetric] vs vendors its all show ?thesis
    by (intro conjI)
qed

section \<open>Who writes the stock\<close>

lemma findOneAndUpdate_findOne:
  "findOne q ds = Some x \<Longrightarrow> findOneAndUpdate q u ds = (Some (u x), updateOne q u ds)"
  by (induction ds) (auto split: if_splits prod.splits)

lemma create_products:
  "productModel (snd (create gen dto user d)) =
     (if isl (fst (create gen dto user d)) then productModel d
      else decrementAll
             (map (\<lambda>l. \<lparr>su_productId = productId l, su_quantity = quantity l\<rparr>) (items dto))
             (productModel d))"
proof (cases "fst (create gen dto user d)")
  case (Inl e)
  then have "isl (fst (create gen dto user d))" by simp
  moreover from this have "snd (create gen dto user d) = d"
    using tryCreate_database [of gen dto user "startTransaction d"]
    by (cases "tryCreate gen dto user (startTransaction d)")
       (auto simp: create_def abortTransaction_def startTransaction_def split: if_splits sum.splits)
  ultimately show ?thesis by simp
next
  case (Inr order)
  then have run: "create gen dto user d = (Inr order, snd (create gen dto user d))"
    by (simp add: prod_eq_iff)
  let ?g = "cartGrouping dto d"
  from create_Inr [OF run]
  have valid: "validateStock (snapshot dto d) (items dto) = None"
    and prods: "productModel (snd (create gen dto user d)) =
        decrementAll (stockUpdates ?g) (productModel d)"
    by (metis, metis db.select_convs(1))
  have "\<forall>l\<in>set (items dto). snapshot dto d (productId l) \<noteq> None"
    using validateStock_NoneD [OF valid] by auto
  then have "orderItems ?g = map (\<lambda>l. orderItemOf (the (snapshot dto d (productId l))) l) (items dto)"
    unfolding cartGrouping_def by (rule groupItems_orderItems)
  moreover have "stockUpdates ?g = map stockUpdateOf (orderItems ?g)"
    using groupItems_grouped [of "snapshot dto d" "items dto"]
    by (simp add: grouped_def cartGrouping_def)
  ultimately have "stockUpdates ?g =
      map (\<lambda>l. \<lparr>su_productId = productId l, su_quantity = quantity l\<rparr>) (items dto)"
    by (simp add: stockUpdateOf_def orderItemOf_def comp_def)
  with prods Inr show ?thesis by simp
qed

lemma updateOrderStatus_products:
  "productModel (snd (updateOrderStatus i s user d)) = productModel d"
  by (simp add: updateOrderStatus_def Let_def split: option.split)

lemma updateStock_sequential:
  assumes "findOne (\<lambda>x. p_id x = pid) ps = Some p" and "q \<le> stock p"
  shows "updateStock pid q ps =
    (Inr (p\<lparr>stock := stock p - q\<rparr>),
     updateOne (\<lambda>x. p_id x = pid) (\<lambda>x. x\<lparr>stock := stock p - q\<rparr>) ps)"
  using assms by (simp add: updateStock_def updateOne_def not_less [symmetric])

text \<open>
  The catalogue's \<^verbatim>\<open>update\<close>, called by an admin with a DTO that carries stock 7,
  raises the stock of product A from 5 to 7: a write of the stock that is not a
  conditional decrement.
\<close>

theorem stock_written_by_update:
  "stock productA = 5
   \<and> update 1 restock7 admin1 [productA, productB] =
       (Inr (productA\<lparr>stock := 7\<rparr>), [productA\<lparr>stock := 7\<rparr>, productB])"
  by (simp add: productA_def productB_def restock7_def admin1_def update_def
      applyUpdateProductDto_def)

text \<open>
  C6, as amended. In the order service the stock is written only by
  \<^verbatim>\<open>decrementStock\<close>: a failed \<^verbatim>\<open>create\<close> leaves the products as they were, a
  successful one leaves the products obtained by applying \<^verbatim>\<open>decrementStock\<close> to
  each cart line in turn, and \<^verbatim>\<open>updateOrderStatus\<close> never changes a product. The
  catalogue's \<^verbatim>\<open>update\<close>, called by an admin or by the vendor owning the product
  with a DTO that carries a stock, stores that stock.
\<close>

theorem stock_writers:
  "productModel (snd (create gen dto user d)) =
     (if isl (fst (create gen dto user d)) then productModel d
      else decrementAll
             (map (\<lambda>l. \<lparr>su_productId = productId l, su_quantity = quantity l\<rparr>) (items dto))
             (productModel d))
   \<and> productModel (snd (updateOrderStatus i s actor d)) = productModel d
   \<and> (findOne (\<lambda>x. p_id x = pid) ps = Some p
        \<and> (role vendor = ADMIN \<or> (role vendor = VENDOR \<and> p_vendorId p = u_id vendor))
        \<and> upd_stock pdto = Some v
      \<longrightarrow> fst (update pid pdto vendor ps) = Inr (applyUpdateProductDto pdto p)
        \<and> stock (applyUpdateProductDto pdto p) = v
        \<and> findOne (\<lambda>x. p_id x = pid) (snd (update pid pdto vendor ps)) =
            Some (applyUpdateProductDto pdto p))"
proof (intro conjI impI)
  show "productModel (snd (create gen dto user d)) =
     (if isl (fst (create gen dto user d)) then productModel d
      else decrementAll
             (map (\<lambda>l. \<lparr>su_productId = productId l, su_quantity = quantity l\<rparr>) (items dto))
             (productModel d))"
    by (rule create_products)
  show "productModel (snd (updateOrderStatus i s actor d)) = productModel d"
    by (rule updateOrderStatus_products)
next
  assume h: "findOne (\<lambda>x. p_id x = pid) ps = Some p
      \<and> (role vendor = ADMIN \<or> (role vendor = VENDOR \<and> p_vendorId p = u_id vendor))
      \<and> upd_stock pdto = Some v"
  then have found: "findOne (\<lambda>x. p_id x = pid) ps = Some p"
    and allowed: "role vendor = ADMIN \<or> (role vendor = VENDOR \<and> p_vendorId p = u_id vendor)"
    and carried: "upd_stock pdto = Some v"
    by simp_all
  have run: "update pid pdto vendor ps =
      (Inr (applyUpdateProductDto pdto p), updateOne (\<lambda>x. p_id x = pid) (applyUpdateProductDto pdto) ps)"
    using found allowed
    by (auto simp: update_def findOneAndUpdate_findOne [OF found])
  show "fst (update pid pdto vendor ps) = Inr (applyUpdateProductDto pdto p)"
    by (simp add: run)
  show "stock (applyUpdateProductDto pdto p) = v"
    using carried by (simp add: applyUpdateProductDto_def)
  have "findOne (\<lambda>x. p_id x = pid) (updateOne (\<lambda>x. p_id x = pid) (applyUpdateProductDto pdto) ps)
      = map_option (applyUpdateProductDto pdto) (findOne (\<lambda>x. p_id x = pid) ps)"
    by (rule findOne_updateOne_same) (simp add: applyUpdateProductDto_def)
  then show "findOne (\<lambda>x. p_id x = pid) (snd (update pid pdto vendor ps)) =
      Some (applyUpdateProductDto pdto p)"
    by (simp add: run found)
qed

theorem stock_writers_witness:
  "map stock (productModel (snd (create gen0 cartABC customer7 dbABC))) = [3, 0, 3]
   \<and> map stock (productModel (snd (create gen0 cartTwiceA customer7 db0))) = [5, 1]
   \<and> map stock (productModel (snd (updateOrderStatus 50 CANCELLED admin1 db1))) = [5, 1]
   \<and> fst (update 1 restock7 admin1 [productA, productB]) = Inr (productA\<lparr>stock := 7\<rparr>)"
proof -
  have placed: "\<not> isl (fst (create gen0 cartABC customer7 dbABC))"
    by code_simp
  have left: "map stock (decrementAll
      (map (\<lambda>l. \<lparr>su_productId = productId l, su_quantity = quantity l\<rparr>) (items cartABC))
      (productModel dbABC)) = [3, 0, 3]"
    by code_simp
  have failed: "isl (fst (create gen0 cartTwiceA customer7 db0))"
    by code_simp
  have found: "findOne (\<lambda>x. p_id x = 1) [productA, productB] = Some productA"
    by code_simp
  note w = stock_writers [of gen0 cartABC customer7 dbABC 50 CANCELLED admin1 1
      "[productA, productB]" productA admin1 restock7 7]
  note w' = stock_writers [of gen0 cartTwiceA customer7 db0 50 CANCELLED admin1 1
      "[productA, productB]" productA admin1 restock7 7]
  have a: "map stock (productModel (snd (create gen0 cartABC customer7 dbABC))) = [3, 0, 3]"
    using w placed left by simp
  have b: "map stock (productModel (snd (create gen0 cartTwiceA customer7 db0))) = [5, 1]"
    using w' failed by (simp add: db0_def productA_def productB_def)
  have c: "map stock (productModel (snd (updateOrderStatus 50 CANCELLED admin1 db1))) = [5, 1]"
    using stock_writers [of gen0 cartTwiceA customer7 db1 50 CANCELLED admin1 1
        "[productA, productB]" productA admin1 restock7 7]
    by (simp add: db1_def productA_def productB_def)
  have e: "fst (update 1 restock7 admin1 [productA, productB]) = Inr (productA\<lparr>stock := 7\<rparr>)"
    using w found by (simp add: admin1_def restock7_def applyUpdateProductDto_def productA_def)
  from a b c e show ?thesis by (intro conjI)
qed

section \<open>Carts of any shape\<close>

lemma validateStock_SomeD:
  "validateStock m its = Some e \<Longrightarrow>
   (\<exists>l\<in>set its. m (productId l) = None)
   \<or> (\<exists>n a r. a < r \<and> e = BadRequestException (NotEnoughStockAvailableRequested n a r))"
proof (induction its)
  case Nil
  then show ?case by simp
next
  case (Cons l its)
  show ?case
  proof (cases "m (productId l)")
    case None
    then show ?thesis by simp
  next
    case (Some p)
    show ?thesis
    proof (cases "stock p < quantity l")
      case True
      with Some Cons.prems
      have "e = BadRequestException
          (NotEnoughStockAvailableRequested (p_name p) (stock p) (quantity l))"
        by simp
      with True show ?thesis by blast
    next
      case False
      with Some Cons.prems have "validateStock m its = Some e" by simp
      from Cons.IH [OF this] show ?thesis by auto
    qed
  qed
qed

lemma createSubOrders_Inl:
  "createSubOrders gen parent vs k c = (Inl e, c') \<Longrightarrow> \<exists>i. e = MongoServerError (DuplicateKey i)"
proof (induction vs arbitrary: k c)
  case Nil
  then show ?case by simp
next
  case (Cons a vs)
  obtain v its where a: "a = (v, its)" by (cases a)
  from Cons.prems show ?case
    unfolding a
    by (auto simp: Let_def insertOne_def split: if_splits sum.splits prod.splits dest: Cons.IH)
qed

lemma applyStockUpdates_Some:
  "applyStockUpdates us c = (Some e, c') \<Longrightarrow>
   \<exists>i. e = BadRequestException (ProductNotFoundOrInsufficientStock i)"
proof (induction us arbitrary: c)
  case Nil
  then show ?case by simp
next
  case (Cons u us)
  from Cons.prems show ?case
    by (auto simp: decrementStock_def split: sum.splits prod.splits option.splits dest: Cons.IH)
qed

lemma tryCreate_Inl:
  assumes run: "tryCreate gen dto user c = (Inl e, c')"
  shows "(\<exists>ids. ids \<noteq> [] \<and> e = BadRequestException (ProductsNotFoundOrOutOfStock ids))
       \<or> (\<exists>n a r. a < r \<and> e = BadRequestException (NotEnoughStockAvailableRequested n a r))
       \<or> (\<exists>i. e = BadRequestException (ProductNotFoundOrInsufficientStock i))
       \<or> (\<exists>i. e = MongoServerError (DuplicateKey i))"
proof -
  let ?m = "snapshot dto (database c)"
  let ?missing = "filter (\<lambda>i. ?m i = None) (map productId (items dto))"
  show ?thesis
  proof (cases "?missing = []")
    case False
    with run have "e = BadRequestException (ProductsNotFoundOrOutOfStock ?missing)"
      by (auto simp: tryCreate_def Let_def snapshot_def)
    with False show ?thesis by blast
  next
    case True
    then have present: "\<forall>l\<in>set (items dto). ?m (productId l) \<noteq> None"
      by (auto simp: filter_empty_conv)
    show ?thesis
    proof (cases "validateStock ?m (items dto)")
      case (Some e')
      with run True have "e = e'"
        by (auto simp: tryCreate_def Let_def snapshot_def)
      with validateStock_SomeD [OF Some] present show ?thesis by blast
    next
      case None
      with run True show ?thesis
        by (auto simp: tryCreate_def Let_def snapshot_def insertOne_def
            split: if_splits sum.splits prod.splits option.splits
            dest: createSubOrders_Inl applyStockUpdates_Some)
    qed
  qed
qed

text \<open>
  A customer's empty cart is accepted and stores an order without items; a cart
  with two lines of product A (quantities 2 and 1, stock 5) is accepted as well and
  lowers the stock of A to 2.
\<close>

theorem create_accepts_malformed_carts:
  "create gen0 emptyCart customer7 db0 = (Inr emptyOrder, db0\<lparr>orderModel := [emptyOrder]\<rparr>)
   \<and> \<not> isl (fst (create gen0 cartAA customer7 db0))
   \<and> map stock (productModel (snd (create gen0 cartAA customer7 db0))) = [2, 1]"
  by code_simp

text \<open>
  C5, as amended. \<^verbatim>\<open>create\<close> does not reject a cart for its shape. A customer's
  empty cart is accepted whenever the generated order id is free: an order with no
  items, total 0 and no sub-orders is stored and nothing else changes. Every
  BadRequest that \<^verbatim>\<open>create\<close> returns is about availability or stock (products not
  found or out of stock, not enough stock for a line, or a failed reservation), so
  two lines of the same product are never a reason for rejection.
\<close>

theorem create_cart_shape:
  "(role user = CUSTOMER \<and> items dto = [] \<and> gen 0 \<notin> o_id ` set (orderModel d) \<longrightarrow>
      create gen dto user d =
        (Inr \<lparr>o_id = gen 0, customerId = u_id user, o_items = [], totalAmount = 0,
               o_status = PENDING, subOrders = []\<rparr>,
         d\<lparr>orderModel := orderModel d @
              [\<lparr>o_id = gen 0, customerId = u_id user, o_items = [], totalAmount = 0,
                 o_status = PENDING, subOrders = []\<rparr>]\<rparr>))
   \<and> (\<forall>m. fst (create gen dto user d) = Inl (BadRequestException m) \<longrightarrow>
         (\<exists>ids. ids \<noteq> [] \<and> m = ProductsNotFoundOrOutOfStock ids)
         \<or> (\<exists>n a r. a < r \<and> m = NotEnoughStockAvailableRequested n a r)
         \<or> (\<exists>i. m = ProductNotFoundOrInsufficientStock i))"
proof (intro conjI impI allI)
  let ?order = "\<lparr>o_id = gen 0, customerId = u_id user, o_items = [], totalAmount = 0,
      o_status = PENDING, subOrders = []\<rparr>"
  assume h: "role user = CUSTOMER \<and> items dto = [] \<and> gen 0 \<notin> o_id ` set (orderModel d)"
  then have "\<forall>x\<in>set (orderModel d). o_id x \<noteq> gen 0"
    by (force simp: image_iff)
  then have saved: "updateOne (\<lambda>x. o_id x = gen 0) (\<lambda>x. x\<lparr>subOrders := []\<rparr>) (orderModel d @ [?order])
      = orderModel d @ [?order]"
    by (simp add: updateOne_append_new)
  have "tryCreate gen dto user (startTransaction d) =
      (Inr ?order, \<lparr>database = d, transaction = d\<lparr>orderModel := orderModel d @ [?order]\<rparr>\<rparr>)"
    using h saved
    by (simp add: tryCreate_def Let_def groupItems_def insertOne_def startTransaction_def)
  with h show "create gen dto user d = (Inr ?order, d\<lparr>orderModel := orderModel d @ [?order]\<rparr>)"
    by (simp add: create_def commitTransaction_def)
next
  fix m assume bad: "fst (create gen dto user d) = Inl (BadRequestException m)"
  then have customer: "role user = CUSTOMER"
    by (auto simp: create_def split: if_splits)
  obtain r c where t: "tryCreate gen dto user (startTransaction d) = (r, c)"
    by (cases "tryCreate gen dto user (startTransaction d)")
  from bad customer t obtain e where r: "r = Inl e" and e: "rethrowCreate e = BadRequestException m"
    by (cases r) (simp_all add: create_def)
  from tryCreate_Inl [OF t [unfolded r]] e
  show "(\<exists>ids. ids \<noteq> [] \<and> m = ProductsNotFoundOrOutOfStock ids)
      \<or> (\<exists>n a r. a < r \<and> m = NotEnoughStockAvailableRequested n a r)
      \<or> (\<exists>i. m = ProductNotFoundOrInsufficientStock i)"
    by auto
qed

theorem create_cart_shape_witness:
  "create gen0 emptyCart customer7 db0 = (Inr emptyOrder, db0\<lparr>orderModel := [emptyOrder]\<rparr>)
   \<and> fst (create gen0 cartTwiceA customer7 db0) =
       Inl (BadRequestException (ProductNotFoundOrInsufficientStock 1))"
proof -
  have h: "role customer7 = CUSTOMER \<and> items emptyCart = [] \<and> gen0 0 \<notin> o_id ` set (orderModel db0)"
    by (simp add: customer7_def emptyCart_def db0_def)
  have accepted: "create gen0 emptyCart customer7 db0 =
      (Inr emptyOrder, db0\<lparr>orderModel := [emptyOrder]\<rparr>)"
    using create_cart_shape [of customer7 emptyCart gen0 db0] h
    by (simp add: emptyOrder_def customer7_def gen0_def db0_def)
  have rejected: "fst (create gen0 cartTwiceA customer7 db0) =
      Inl (BadRequestException (ProductNotFoundOrInsufficientStock 1))"
    by code_simp
  from accepted rejected show ?thesis by (intro conjI)
qed


end
